theory Spec2Isabelle
  imports Main "HOL-Library.Sublist"
begin

section \<open>JavaScript strings\<close>

text \<open>
  A JavaScript string is a sequence of UTF-16 code units. The hours engine of
  \<^verbatim>\<open>src/shared.js\<close> looks at single code units only (digits, the colon, the comma,
  white space, the three dashes, the letters of AM and PM), so a string is modelled as the
  list of its code units, each a natural number. \<open>js\<close> embeds an ASCII literal.
\<close>

type_synonym jstring = "nat list"

definition js :: "string \<Rightarrow> jstring" where
  "js s = map of_char s"

text \<open>The class \<^verbatim>\<open>\d\<close> of a regular expression without the unicode flag: 0 to 9.\<close>

definition is_digit :: "nat \<Rightarrow> bool" where
  "is_digit c = (48 \<le> c \<and> c \<le> 57)"

text \<open>
  The class \<^verbatim>\<open>\s\<close>, which is also what \<^verbatim>\<open>String.prototype.trim\<close> strips: the
  white space and line terminator code points of ECMAScript (TAB, LF, VT, FF, CR, SP,
  NBSP, U+1680, U+2000 to U+200A, LS, PS, U+202F, U+205F, U+3000, U+FEFF).
\<close>

definition is_space :: "nat \<Rightarrow> bool" where
  "is_space c = (c \<in> {9, 10, 11, 12, 13, 32, 160, 5760, 8232, 8233, 8239, 8287, 12288, 65279}
                 \<or> (8192 \<le> c \<and> c \<le> 8202))"

text \<open>
  The character class of the separator in \<^verbatim>\<open>parseTimeRange\<close>: the en dash U+2013, the
  em dash U+2014 and the hyphen.
\<close>

definition is_dash :: "nat \<Rightarrow> bool" where
  "is_dash c = (c = 8211 \<or> c = 8212 \<or> c = 45)"

definition trim :: "jstring \<Rightarrow> jstring" where
  "trim s = rev (dropWhile is_space (rev (dropWhile is_space s)))"

text \<open>\<^verbatim>\<open>parseInt(ds, 10)\<close> on a string of decimal digits.\<close>

definition parseInt :: "jstring \<Rightarrow> int" where
  "parseInt ds = foldl (\<lambda>a d. a * 10 + (int d - 48)) 0 ds"

section \<open>The time parser\<close>

datatype meridiem = AM | PM

text \<open>
  The tail \<^verbatim>\<open>\s*(AM|PM)?$\<close> of the pattern, with the flag \<^verbatim>\<open>i\<close>: the white space is
  taken greedily (no dash or letter is white space, so giving some back never helps), then
  the input ends, or holds exactly the two letters. The outer option is the match, the
  inner one the third group after \<^verbatim>\<open>toUpperCase\<close>.
\<close>

definition match_meridiem :: "jstring \<Rightarrow> meridiem option option" where
  "match_meridiem s =
     (case dropWhile is_space s of
        [] \<Rightarrow> Some None
      | [a, m] \<Rightarrow>
          if (a = 65 \<or> a = 97) \<and> (m = 77 \<or> m = 109) then Some (Some AM)
          else if (a = 80 \<or> a = 112) \<and> (m = 77 \<or> m = 109) then Some (Some PM)
          else None
      | _ \<Rightarrow> None)"

text \<open>
  One attempt of \<^verbatim>\<open>^(\d{1,2}):(\d{2})\s*(AM|PM)?$\<close> with \<open>k\<close> digits in the first
  group. The result holds \<^verbatim>\<open>parseInt\<close> of the two digit groups and the meridiem.
\<close>

definition match_with :: "nat \<Rightarrow> jstring \<Rightarrow> (int \<times> int \<times> meridiem option) option" where
  "match_with k s =
     (if length (take k s) = k \<and> list_all is_digit (take k s) then
        (case drop k s of
           c # m1 # m2 # rest \<Rightarrow>
             if c = 58 \<and> is_digit m1 \<and> is_digit m2 then
               (case match_meridiem rest of
                  Some p \<Rightarrow> Some (parseInt (take k s), parseInt [m1, m2], p)
                | None \<Rightarrow> None)
             else None
         | _ \<Rightarrow> None)
      else None)"

text \<open>The greedy quantifier \<^verbatim>\<open>{1,2}\<close> tries two digits first, then one.\<close>

definition match_time :: "jstring \<Rightarrow> (int \<times> int \<times> meridiem option) option" where
  "match_time s =
     (case match_with 2 s of Some r \<Rightarrow> Some r | None \<Rightarrow> match_with 1 s)"

text \<open>
  \<^verbatim>\<open>inferHour\<close>; \<^verbatim>\<open>startMinutes === null\<close> is \<open>None\<close>. The first test of the source,
  \<^verbatim>\<open>!isEndTime || startMinutes === null\<close>, is the branch \<open>None\<close> together with the
  test \<open>\<not> isEndTime\<close> of the branch \<open>Some\<close>; both give the heuristic of a start time.
\<close>

definition inferHour :: "int \<Rightarrow> int \<Rightarrow> bool \<Rightarrow> int option \<Rightarrow> int" where
  "inferHour hours minutes isEndTime startMinutes =
     (case startMinutes of
        None \<Rightarrow> (if hours \<ge> 1 \<and> hours \<le> 6 then hours + 12 else hours)
      | Some sm \<Rightarrow>
          if \<not> isEndTime then (if hours \<ge> 1 \<and> hours \<le> 6 then hours + 12 else hours)
          else
            let startHour = sm div 60;
                currentMinutes = hours * 60 + minutes
            in if hours < 12 \<and> startHour \<ge> 12 then hours + 12
               else if currentMinutes < sm \<and> hours < 12 then hours + 12
               else hours)"

text \<open>The conversion of the hour that \<^verbatim>\<open>parseTime\<close> does after the match.\<close>

definition convertHour :: "int \<Rightarrow> int \<Rightarrow> meridiem option \<Rightarrow> bool \<Rightarrow> int option \<Rightarrow> int" where
  "convertHour hours minutes period isEndTime startMinutes =
     (if period = Some PM \<and> hours \<noteq> 12 then hours + 12
      else if period = Some AM \<and> hours = 12 then 0
      else if period = None then inferHour hours minutes isEndTime startMinutes
      else hours)"

text \<open>\<^verbatim>\<open>parseTime\<close>; the result \<^verbatim>\<open>null\<close> is \<open>None\<close>.\<close>

definition parseTime :: "jstring \<Rightarrow> bool \<Rightarrow> int option \<Rightarrow> int option" where
  "parseTime timeStr isEndTime startMinutes =
     (if timeStr = [] then None
      else case match_time (trim timeStr) of
             None \<Rightarrow> None
           | Some (hours, minutes, period) \<Rightarrow>
               Some (convertHour hours minutes period isEndTime startMinutes * 60 + minutes))"

section \<open>The range parser\<close>

text \<open>
  A range as \<^verbatim>\<open>parseTimeRange\<close> builds it. The field \<^verbatim>\<open>end\<close> is written \<open>end'\<close>.
  Only the range of a place open all day has the field \<^verbatim>\<open>is24h\<close> in the source; where
  the field is absent the test \<^verbatim>\<open>range.is24h\<close> is false, which is \<open>False\<close> here.
\<close>

record time_range =
  start :: int
  end' :: int
  is24h :: bool

text \<open>\<^verbatim>\<open>s.includes(t)\<close>: \<open>t\<close> occurs in \<open>s\<close> as a contiguous substring.\<close>

fun js_includes :: "jstring \<Rightarrow> jstring \<Rightarrow> bool" where
  "js_includes [] t = (t = [])"
| "js_includes (c # cs) t = (prefix t (c # cs) \<or> js_includes cs t)"

text \<open>
  \<^verbatim>\<open>s.split(',')\<close>, the separator being the one code unit \<open>sep\<close>; \<open>cur\<close> is the piece
  read since the last separator.
\<close>

fun split_on :: "nat \<Rightarrow> jstring \<Rightarrow> jstring \<Rightarrow> jstring list" where
  "split_on sep cur [] = [cur]"
| "split_on sep cur (c # cs) =
     (if c = sep then cur # split_on sep [] cs else split_on sep (cur @ [c]) cs)"

text \<open>
  A match of the separator pattern (\<^verbatim>\<open>\s*\<close>, one dash of the class above, \<^verbatim>\<open>\s*\<close>) at
  the start of the input; the result is the input after the match. Both stars are greedy
  and a dash is no white space, so the match is unique.
\<close>

definition match_sep :: "jstring \<Rightarrow> jstring option" where
  "match_sep s =
     (case dropWhile is_space s of
        [] \<Rightarrow> None
      | d # r \<Rightarrow> if is_dash d then Some (dropWhile is_space r) else None)"

text \<open>
  \<^verbatim>\<open>period.split\<close> with the separator pattern: the separator is looked for at each
  position in turn from the end of the last match; a match closes the piece \<open>cur\<close> and the
  search goes on behind it; the piece open at the end of the input is the last one.
\<close>

function split_dash :: "jstring \<Rightarrow> jstring \<Rightarrow> jstring list" where
  "split_dash cur [] = [cur]"
| "split_dash cur (c # cs) =
     (case match_sep (c # cs) of
        Some rest \<Rightarrow> cur # split_dash [] rest
      | None \<Rightarrow> split_dash (cur @ [c]) cs)"
  by pat_completeness auto
termination
proof (relation "measure (\<lambda>(cur, s). length s)")
  show "wf (measure (\<lambda>(cur, s). length s))"
    by simp
next
  fix cur :: jstring and c cs rest
  assume "match_sep (c # cs) = Some rest"
  then obtain d t where dt: "dropWhile is_space (c # cs) = d # t"
    and r: "rest = dropWhile is_space t"
    by (auto simp: match_sep_def split: list.splits if_splits)
  have "length rest \<le> length t"
    unfolding r by (rule length_dropWhile_le)
  moreover have "length (d # t) \<le> length (c # cs)"
    unfolding dt [symmetric] by (rule length_dropWhile_le)
  ultimately have "length rest < length (c # cs)"
    by simp
  then show "(([], rest), (cur, c # cs)) \<in> measure (\<lambda>(cur, s). length s)"
    by simp
next
  fix cur :: jstring and c cs
  show "((cur @ [c], cs), (cur, c # cs)) \<in> measure (\<lambda>(cur, s). length s)"
    by simp
qed

text \<open>The body of the loop of \<^verbatim>\<open>parseTimeRange\<close>: \<open>None\<close> is \<^verbatim>\<open>continue\<close>.\<close>

definition parse_period :: "jstring \<Rightarrow> time_range option" where
  "parse_period period =
     (case split_dash [] period of
        [p0, p1] \<Rightarrow>
          (let startMinutes = parseTime p0 False None;
               endMinutes = parseTime p1 True startMinutes
           in case startMinutes of
                None \<Rightarrow> None
              | Some s \<Rightarrow>
                  (case endMinutes of
                     None \<Rightarrow> None
                   | Some e \<Rightarrow> Some \<lparr>start = s, end' = e, is24h = False\<rparr>))
      | _ \<Rightarrow> None)"

text \<open>The loop itself: the periods that parse, in their order.\<close>

fun collect_periods :: "jstring list \<Rightarrow> time_range list" where
  "collect_periods [] = []"
| "collect_periods (p # ps) =
     (case parse_period p of
        None \<Rightarrow> collect_periods ps
      | Some r \<Rightarrow> r # collect_periods ps)"

text \<open>\<^verbatim>\<open>parseTimeRange\<close>; the argument \<^verbatim>\<open>null\<close> is \<open>None\<close>.\<close>

definition parseTimeRange :: "jstring option \<Rightarrow> time_range list option" where
  "parseTimeRange rangeStr =
     (case rangeStr of
        None \<Rightarrow> None
      | Some s \<Rightarrow>
          if s = [] \<or> s = js ''Closed'' then None
          else if js_includes s (js ''Open 24 hours'')
            then Some [\<lparr>start = 0, end' = 1440, is24h = True\<rparr>]
          else
            let periods = map trim (split_on 44 [] s);
                results = collect_periods periods
            in if length results > 0 then Some results else None)"

section \<open>The time formatter\<close>

text \<open>
  The operator \<^verbatim>\<open>%\<close> on integers: the remainder has the sign of the dividend.
\<close>

definition js_rem :: "int \<Rightarrow> int \<Rightarrow> int" where
  "js_rem a b = sgn a * (\<bar>a\<bar> mod \<bar>b\<bar>)"

text \<open>\<^verbatim>\<open>n.toString()\<close> of an integer: its decimal digits, a minus sign before them.\<close>

fun digits :: "nat \<Rightarrow> jstring" where
  "digits n = (if n < 10 then [48 + n] else digits (n div 10) @ [48 + n mod 10])"

declare digits.simps [simp del]

definition toString :: "int \<Rightarrow> jstring" where
  "toString n = (if n < 0 then 45 # digits (nat (- n)) else digits (nat n))"

text \<open>\<^verbatim>\<open>s.padStart(n, c)\<close> with a filler of one code unit.\<close>

definition padStart :: "nat \<Rightarrow> nat \<Rightarrow> jstring \<Rightarrow> jstring" where
  "padStart n c s = replicate (n - length s) c @ s"

definition formatMinutesAsTime :: "int \<Rightarrow> jstring" where
  "formatMinutesAsTime minutes =
     (let hours = js_rem (minutes div 60) 24;
          mins = js_rem minutes 60;
          period = (if hours \<ge> 12 then js ''PM'' else js ''AM'');
          displayHours = (if hours = 0 then 12 else if hours > 12 then hours - 12 else hours)
      in toString displayHours @ js '':'' @ padStart 2 48 (toString mins) @ js '' '' @ period)"

section \<open>The schedule accessor\<close>

definition DAY_NAMES :: "jstring list" where
  "DAY_NAMES = map js [''Sunday'', ''Monday'', ''Tuesday'', ''Wednesday'', ''Thursday'',
                       ''Friday'', ''Saturday'']"

definition CLOSING_SOON_MINUTES :: int where
  "CLOSING_SOON_MINUTES = 45"

text \<open>
  What the engine reads of a \<^verbatim>\<open>Date\<close>: the weekday (0 is Sunday), the hour and the
  minute, all in local time.
\<close>

record date =
  getDay :: nat
  getHours :: int
  getMinutes :: int

text \<open>
  \<^verbatim>\<open>DAY_NAMES[d]\<close> where it is spliced into a string: an index out of range reads
  \<^verbatim>\<open>undefined\<close>, which concatenation prints as that word. \<^verbatim>\<open>getDay\<close> of a valid date
  is below 7.
\<close>

definition day_name :: "nat \<Rightarrow> jstring" where
  "day_name d = (if d < length DAY_NAMES then DAY_NAMES ! d else js ''undefined'')"

text \<open>
  \<^verbatim>\<open>s.replace(pat, '')\<close> with a string pattern: the first occurrence of \<open>pat\<close> is cut.
\<close>

fun remove_first :: "jstring \<Rightarrow> jstring \<Rightarrow> jstring" where
  "remove_first pat [] = []"
| "remove_first pat (c # cs) =
     (if prefix pat (c # cs) then drop (length pat) (c # cs) else c # remove_first pat cs)"

record today_data =
  dayName :: jstring
  timeStr :: jstring
  ranges :: "time_range list option"

text \<open>
  The predicate of \<^verbatim>\<open>hours.find\<close>: \<^verbatim>\<open>h && h.startsWith(dayName + ':')\<close>. An element
  of the array is a string or \<^verbatim>\<open>null\<close> (\<open>None\<close>); the empty string is falsy as well.
\<close>

definition is_entry_of :: "jstring \<Rightarrow> jstring option \<Rightarrow> bool" where
  "is_entry_of dn h =
     (case h of None \<Rightarrow> False | Some s \<Rightarrow> s \<noteq> [] \<and> prefix (dn @ js '':'') s)"

text \<open>
  \<^verbatim>\<open>getTodayHours\<close>. The argument \<^verbatim>\<open>hours\<close> is an array (\<open>Some\<close>) or anything else
  (\<open>None\<close>, as \<^verbatim>\<open>null\<close>).
\<close>

definition getTodayHours :: "jstring option list option \<Rightarrow> date \<Rightarrow> today_data option" where
  "getTodayHours hours d =
     (case hours of
        None \<Rightarrow> None
      | Some hs \<Rightarrow>
          if length hs = 0 then None
          else
            let dn = day_name (getDay d)
            in case find (is_entry_of dn) hs of
                 None \<Rightarrow> None
               | Some None \<Rightarrow> None
               | Some (Some entry) \<Rightarrow>
                   if entry = [] then None
                   else
                     let ts = remove_first (dn @ js '': '') entry
                     in Some \<lparr>dayName = dn, timeStr = ts,
                               ranges = parseTimeRange (Some ts)\<rparr>)"

section \<open>The status evaluator\<close>

datatype status = Open | ClosingSoon | Closed | Unknown

text \<open>
  The object that \<^verbatim>\<open>getOpenStatus\<close> returns. A field that the object does not have is
  \<open>None\<close>; \<^verbatim>\<open>opensAt\<close>, when present, holds a string or \<^verbatim>\<open>null\<close>.
\<close>

record open_status =
  isOpen :: bool
  isClosingSoon :: bool
  status :: status
  minutesUntilClose :: "int option"
  closesAt :: "jstring option"
  opensAt :: "jstring option option"
  todayHours :: "jstring option"

text \<open>
  \<^verbatim>\<open>checkTimeRange\<close>: \<open>muc\<close> is \<^verbatim>\<open>minutesUntilClose\<close>, \<open>soon\<close> is
  \<^verbatim>\<open>isClosingSoon\<close>, the result \<^verbatim>\<open>null\<close> is \<open>None\<close>.
\<close>

definition checkTimeRange :: "time_range \<Rightarrow> int \<Rightarrow> jstring \<Rightarrow> open_status option" where
  "checkTimeRange rng currentMinutes th =
     (let wrapsToNextDay = (end' rng < start rng);
          isInRange =
            (if wrapsToNextDay
             then currentMinutes \<ge> start rng \<or> currentMinutes < end' rng
             else currentMinutes \<ge> start rng \<and> currentMinutes < end' rng);
          muc =
            (if wrapsToNextDay
             then (if currentMinutes \<ge> start rng then (1440 - currentMinutes) + end' rng
                   else end' rng - currentMinutes)
             else end' rng - currentMinutes)
      in if \<not> isInRange then None
         else
           let soon = (muc \<le> CLOSING_SOON_MINUTES \<and> muc > 0)
           in Some \<lparr>isOpen = True, isClosingSoon = soon,
                     status = (if soon then ClosingSoon else Open),
                     minutesUntilClose = Some muc,
                     closesAt = Some (formatMinutesAsTime (js_rem (end' rng) 1440)),
                     opensAt = None, todayHours = Some th\<rparr>)"

text \<open>
  The loop of \<^verbatim>\<open>getOpenStatus\<close> over the ranges of today; \<open>None\<close> when the loop ends
  without a \<^verbatim>\<open>return\<close>.
\<close>

fun check_ranges :: "time_range list \<Rightarrow> int \<Rightarrow> jstring \<Rightarrow> open_status option" where
  "check_ranges [] currentMinutes th = None"
| "check_ranges (rng # rs) currentMinutes th =
     (if is24h rng then
        Some \<lparr>isOpen = True, isClosingSoon = False, status = Open,
              minutesUntilClose = None, closesAt = None, opensAt = None,
              todayHours = Some th\<rparr>
      else case checkTimeRange rng currentMinutes th of
             Some res \<Rightarrow> Some res
           | None \<Rightarrow> check_ranges rs currentMinutes th)"

section \<open>The search for the next opening\<close>

text \<open>
  \<^verbatim>\<open>new Date(date)\<close> followed by \<^verbatim>\<open>setDate(getDate() + i)\<close>: the calendar day moves on
  by \<open>i\<close>, so the weekday does, around the week.
\<close>

definition add_days :: "date \<Rightarrow> nat \<Rightarrow> date" where
  "add_days d i = d\<lparr>getDay := (getDay d + i) mod 7\<rparr>"

text \<open>The loop of \<^verbatim>\<open>findNextOpenTime\<close> over the offsets \<open>i\<close>, given as a list.\<close>

fun scan_days :: "jstring option list option \<Rightarrow> date \<Rightarrow> nat list \<Rightarrow> jstring option" where
  "scan_days hours d [] = None"
| "scan_days hours d (i # rest) =
     (let checkDate = add_days d i
      in case getTodayHours hours checkDate of
           None \<Rightarrow> scan_days hours d rest
         | Some dayData \<Rightarrow>
             (case ranges dayData of
                None \<Rightarrow> scan_days hours d rest
              | Some [] \<Rightarrow> scan_days hours d rest
              | Some (r # rs) \<Rightarrow>
                  let dayLabel = (if i = 1 then js ''tomorrow'' else day_name (getDay checkDate))
                  in Some (dayLabel @ js '' at '' @ formatMinutesAsTime (start r))))"

definition findNextOpenTime :: "jstring option list option \<Rightarrow> date \<Rightarrow> jstring option" where
  "findNextOpenTime hours d =
     (case hours of
        None \<Rightarrow> None
      | Some hs \<Rightarrow>
          if length hs = 0 then None
          else
            let currentMinutes = getHours d * 60 + getMinutes d;
                later = (case getTodayHours hours d of
                           None \<Rightarrow> None
                         | Some todayData \<Rightarrow>
                             (case ranges todayData of
                                None \<Rightarrow> None
                              | Some rs \<Rightarrow> find (\<lambda>rng. start rng > currentMinutes) rs))
            in case later of
                 Some rng \<Rightarrow> Some (js ''today at '' @ formatMinutesAsTime (start rng))
               | None \<Rightarrow> scan_days hours d [1 ..< 8])"

definition getOpenStatus :: "jstring option list option \<Rightarrow> date \<Rightarrow> open_status" where
  "getOpenStatus hours d =
     (let unknown = \<lparr>isOpen = False, isClosingSoon = False, status = Unknown,
                     minutesUntilClose = None, closesAt = None, opensAt = None,
                     todayHours = None\<rparr>
      in case getTodayHours hours d of
           None \<Rightarrow> unknown
         | Some todayData \<Rightarrow>
             (case ranges todayData of
                None \<Rightarrow> unknown
              | Some rs \<Rightarrow>
                  let currentMinutes = getHours d * 60 + getMinutes d
                  in case check_ranges rs currentMinutes (timeStr todayData) of
                       Some res \<Rightarrow> res
                     | None \<Rightarrow>
                         \<lparr>isOpen = False, isClosingSoon = False, status = Closed,
                          minutesUntilClose = None, closesAt = None,
                          opensAt = Some (findNextOpenTime hours d),
                          todayHours = Some (timeStr todayData)\<rparr>))"

section \<open>Notions of the specification\<close>

text \<open>
  The minutes until close as the specification defines them for a range and a minute of
  the day: across midnight for a range that wraps when the day has not turned yet.
\<close>

definition until_close :: "time_range \<Rightarrow> int \<Rightarrow> int" where
  "until_close rng current =
     (if end' rng < start rng then
        (if current \<ge> start rng then (1440 - current) + end' rng
         else end' rng - current)
      else end' rng - current)"

text \<open>
  The ranges of a day: those that \<^verbatim>\<open>getTodayHours\<close> finds for the date, none when
  the day has no entry or nothing in it parses.
\<close>

definition ranges_on :: "jstring option list option \<Rightarrow> date \<Rightarrow> time_range list" where
  "ranges_on hours d =
     (case getTodayHours hours d of
        None \<Rightarrow> []
      | Some dayData \<Rightarrow> (case ranges dayData of None \<Rightarrow> [] | Some rs \<Rightarrow> rs))"

text \<open>The label of the day \<open>i\<close> days after the date \<open>d\<close>.\<close>

definition day_label :: "date \<Rightarrow> nat \<Rightarrow> jstring" where
  "day_label d i = (if i = 1 then js ''tomorrow'' else day_name ((getDay d + i) mod 7))"

text \<open>Weekly hours and dates used as examples.\<close>

definition monday_only :: "jstring option list option" where
  "monday_only = Some [Some (js ''Monday: 9:00 AM - 5:00 PM'')]"

definition evening_first :: "jstring option list option" where
  "evening_first = Some [Some (js ''Monday: 5:00 PM - 10:00 PM, 11:00 AM - 3:00 PM'')]"

definition monday_closed_only :: "jstring option list option" where
  "monday_closed_only = Some [Some (js ''Monday: Closed'')]"

definition split_shift :: "jstring option list option" where
  "split_shift = Some [Some (js ''Monday: 11:00 AM - 3:00 PM, 5:00 - 10:00 PM'')]"

definition monday_1800 :: date where
  "monday_1800 = \<lparr>getDay = 1, getHours = 18, getMinutes = 0\<rparr>"

definition monday_1730 :: date where
  "monday_1730 = \<lparr>getDay = 1, getHours = 17, getMinutes = 30\<rparr>"

definition monday_1630 :: date where
  "monday_1630 = \<lparr>getDay = 1, getHours = 16, getMinutes = 30\<rparr>"

definition monday_0900 :: date where
  "monday_0900 = \<lparr>getDay = 1, getHours = 9, getMinutes = 0\<rparr>"

definition monday_0830 :: date where
  "monday_0830 = \<lparr>getDay = 1, getHours = 8, getMinutes = 30\<rparr>"

definition saturday_1730 :: date where
  "saturday_1730 = \<lparr>getDay = 6, getHours = 17, getMinutes = 30\<rparr>"

text \<open>
  A clock token \<^verbatim>\<open>"H:MM AM"\<close> or \<^verbatim>\<open>"H:MM PM"\<close> as the display writes it: the hour
  without a leading zero, the minute on two digits, one space, the meridiem in capitals.
\<close>

definition two_digits :: "nat \<Rightarrow> jstring" where
  "two_digits n = [48 + n div 10, 48 + n mod 10]"

definition clock_token :: "nat \<Rightarrow> nat \<Rightarrow> meridiem \<Rightarrow> jstring" where
  "clock_token h m p =
     (if h < 10 then [48 + h] else two_digits h) @ js '':'' @ two_digits m @ js '' ''
       @ (case p of AM \<Rightarrow> js ''AM'' | PM \<Rightarrow> js ''PM'')"

text \<open>The minute of the day that a clock token stands for.\<close>

definition clock_minutes :: "nat \<Rightarrow> nat \<Rightarrow> meridiem \<Rightarrow> int" where
  "clock_minutes h m p = int ((h mod 12 + (case p of AM \<Rightarrow> 0 | PM \<Rightarrow> 12)) * 60 + m)"

section \<open>Evaluation at concrete inputs\<close>

text \<open>The definitions that the simplifier unfolds to run each part of the engine.\<close>

named_theorems parse_eval

lemmas [parse_eval] = js_def trim_def is_space_def is_digit_def match_time_def match_with_def
  match_meridiem_def parseInt_def

named_theorems range_eval

lemmas [range_eval] = parseTimeRange_def parse_period_def match_sep_def is_dash_def parseTime_def
  convertHour_def inferHour_def

named_theorems day_eval

lemmas [day_eval] = getTodayHours_def day_name_def DAY_NAMES_def is_entry_of_def

named_theorems format_eval

lemmas [format_eval] = formatMinutesAsTime_def js_rem_def toString_def padStart_def digits.simps
  js_def

lemma fmt_examples:
  "formatMinutesAsTime 540 = js ''9:00 AM''"
  "formatMinutesAsTime 660 = js ''11:00 AM''"
  "formatMinutesAsTime 1020 = js ''5:00 PM''"
  "formatMinutesAsTime 1320 = js ''10:00 PM''"
  by (simp_all add: format_eval)

section \<open>Properties of the time parser\<close>

lemma trim_Nil: "trim [] = []"
  by (simp add: trim_def)

lemma match_time_Nil: "match_time [] = None"
  by (simp add: match_time_def match_with_def)

lemma digit_value: "is_digit c \<Longrightarrow> 0 \<le> int c - 48 \<and> int c - 48 \<le> 9"
  by (auto simp: is_digit_def)

lemma parseInt_one: "is_digit a \<Longrightarrow> 0 \<le> parseInt [a] \<and> parseInt [a] \<le> 9"
  using digit_value [of a] by (simp add: parseInt_def)

lemma parseInt_two:
  "is_digit a \<Longrightarrow> is_digit b \<Longrightarrow> 0 \<le> parseInt [a, b] \<and> parseInt [a, b] \<le> 99"
  using digit_value [of a] digit_value [of b] by (simp add: parseInt_def)

lemma match_with_bounds:
  assumes "match_with k s = Some (h, m, p)" and "k = 1 \<or> k = 2"
  shows "0 \<le> h \<and> h \<le> 99 \<and> 0 \<le> m \<and> m \<le> 99"
proof -
  define ds where "ds = take k s"
  from assms(1) obtain c m1 m2 rest where
    len: "length ds = k" and dig: "list_all is_digit ds"
    and h: "h = parseInt ds" and m: "m = parseInt [m1, m2]"
    and d: "is_digit m1" "is_digit m2"
    unfolding ds_def
    by (auto simp: match_with_def split: if_splits list.splits option.splits)
  have mb: "0 \<le> m \<and> m \<le> 99"
    unfolding m using d by (rule parseInt_two)
  from assms(2) have "0 \<le> h \<and> h \<le> 99"
  proof
    assume "k = 1"
    with len obtain a where "ds = [a]"
      by (cases ds) auto
    with dig h show ?thesis
      using parseInt_one [of a] by simp
  next
    assume "k = 2"
    with len obtain a b where "ds = [a, b]"
      by (cases ds; cases "tl ds") auto
    with dig h show ?thesis
      using parseInt_two [of a b] by simp
  qed
  with mb show ?thesis by simp
qed

lemma match_time_bounds:
  "match_time s = Some (h, m, p) \<Longrightarrow> 0 \<le> h \<and> h \<le> 99 \<and> 0 \<le> m \<and> m \<le> 99"
  by (auto simp: match_time_def split: option.splits dest: match_with_bounds)

lemma convertHour_bounds:
  "0 \<le> h \<Longrightarrow> 0 \<le> convertHour h m p e s \<and> convertHour h m p e s \<le> h + 12"
  by (auto simp: convertHour_def inferHour_def Let_def split: option.splits)

lemma parseTime_Some:
  "parseTime text e s = Some v \<longleftrightarrow>
     (\<exists>h m p. match_time (trim text) = Some (h, m, p) \<and> v = convertHour h m p e s * 60 + m)"
  by (auto simp: parseTime_def trim_Nil match_time_Nil split: option.splits)


text \<open>
  Claim C1, as amended. A token without AM or PM, parsed as an end time with no known start
  (\<^verbatim>\<open>parseTime(text, true, null)\<close>), is not left literal: it gets the heuristic of a
  start time. An hour from 1 to 6 is moved to the afternoon (12 hours are added), any other
  hour is taken as written, and the result is what the same token gives as a start time.
\<close>

theorem parseTime_end_without_start:
  assumes "match_time (trim text) = Some (h, m, None)"
  shows "parseTime text True None = Some ((if 1 \<le> h \<and> h \<le> 6 then h + 12 else h) * 60 + m)
         \<and> parseTime text True None = parseTime text False None"
proof -
  have "text \<noteq> []"
    using assms by (auto simp: trim_Nil match_time_Nil)
  then show ?thesis
    using assms by (simp add: parseTime_def convertHour_def inferHour_def)
qed

theorem parseTime_end_without_start_witness:
  "match_time (trim (js ''3:00'')) = Some (3, 0, None)
   \<and> parseTime (js ''3:00'') True None = Some 900
   \<and> match_time (trim (js ''9:30'')) = Some (9, 30, None)
   \<and> parseTime (js ''9:30'') True None = Some 570"
proof -
  have a: "match_time (trim (js ''3:00'')) = Some (3, 0, None)"
    by (simp add: parse_eval)
  have b: "match_time (trim (js ''9:30'')) = Some (9, 30, None)"
    by (simp add: parse_eval)
  show ?thesis
    using a b parseTime_end_without_start [OF a] parseTime_end_without_start [OF b]
    by simp
qed

text \<open>
  The claim as the specification states it (the literal value, no adjustment) fails at
  \<^verbatim>\<open>"3:00"\<close>: the literal value is 180, the result is 900.
\<close>

theorem parseTime_end_without_start_counterexample:
  "match_time (trim (js ''3:00'')) = Some (3, 0, None)
   \<and> parseTime (js ''3:00'') True None \<noteq> Some (3 * 60 + 0)"
  by (simp add: parse_eval parseTime_def convertHour_def inferHour_def)

text \<open>
  Claim C2, as amended. Whatever \<^verbatim>\<open>parseTime\<close> accepts, the value returned is
  \<open>hours * 60 + minutes\<close>, the hour being the converted one. The pattern accepts hour and
  minute fields up to 99, so the value lies between 0 and 6759; for a single-day token
  (hour field at most 23, minute field at most 59) whose hour is left as written, and for
  any such token that has no meridiem or an hour of at most 12, it lies between 0 and 1439.
\<close>

theorem parseTime_value:
  assumes "parseTime text e s = Some v"
  shows "\<exists>h m p. match_time (trim text) = Some (h, m, p)
           \<and> v = convertHour h m p e s * 60 + m
           \<and> 0 \<le> v \<and> v \<le> 6759
           \<and> (h \<le> 23 \<and> m \<le> 59 \<and> (convertHour h m p e s = h \<or> p = None \<or> h \<le> 12)
                \<longrightarrow> v \<le> 1439)"
proof -
  from assms obtain h m p where
    mt: "match_time (trim text) = Some (h, m, p)" and v: "v = convertHour h m p e s * 60 + m"
    unfolding parseTime_Some by blast
  from mt have hm: "0 \<le> h \<and> h \<le> 99 \<and> 0 \<le> m \<and> m \<le> 99"
    by (rule match_time_bounds)
  then have c: "0 \<le> convertHour h m p e s \<and> convertHour h m p e s \<le> h + 12"
    by (simp add: convertHour_bounds)
  have lo: "0 \<le> v" and hi: "v \<le> 6759"
    using hm c unfolding v by auto
  have day: "v \<le> 1439"
    if "h \<le> 23 \<and> m \<le> 59 \<and> (convertHour h m p e s = h \<or> p = None \<or> h \<le> 12)"
  proof -
    have "convertHour h m p e s \<le> 23"
      using that hm
      by (auto simp: convertHour_def inferHour_def Let_def split: option.splits)
    with that show ?thesis
      unfolding v by auto
  qed
  from mt v lo hi day show ?thesis
    by blast
qed

theorem parseTime_value_witness:
  "parseTime (js ''11:59 PM'') True None = Some 1439
   \<and> match_time (trim (js ''11:59 PM'')) = Some (11, 59, Some PM)
   \<and> convertHour 11 59 (Some PM) True None * 60 + 59 = 1439"
proof -
  have a: "parseTime (js ''11:59 PM'') True None = Some 1439"
    by (simp add: parse_eval parseTime_def convertHour_def)
  have b: "match_time (trim (js ''11:59 PM'')) = Some (11, 59, Some PM)"
    by (simp add: parse_eval)
  from parseTime_value [OF a] b have "(1439::int) = convertHour 11 59 (Some PM) True None * 60 + 59"
    by auto
  with a b show ?thesis
    by simp
qed

text \<open>
  The bound of the specification, 1380, fails at the literal token \<^verbatim>\<open>"23:59"\<close>.
\<close>

theorem parseTime_value_counterexample:
  "match_time (trim (js ''23:59'')) = Some (23, 59, None)
   \<and> convertHour 23 59 None False None = 23
   \<and> parseTime (js ''23:59'') False None = Some 1439
   \<and> \<not> (1439::int) \<le> 1380"
  by (simp add: parse_eval parseTime_def convertHour_def inferHour_def)

section \<open>Properties of the status evaluator\<close>

text \<open>
  Claim C3. For a range that wraps over midnight (\<open>end < start\<close>) and any current minute,
  \<^verbatim>\<open>checkTimeRange\<close> matches exactly when \<open>current \<ge> start\<close> or \<open>current < end\<close>, and
  then reports \<open>(1440 - current) + end\<close> minutes until close when \<open>current \<ge> start\<close> and
  \<open>end - current\<close> otherwise. The witness below is the range from 1320 to 60 at the
  minutes 30 (in range, 30 minutes left) and 1439 (in range).
\<close>

theorem checkTimeRange_overnight:
  assumes "end' rng < start rng"
  shows "map_option minutesUntilClose (checkTimeRange rng current th) =
           (if current \<ge> start rng \<or> current < end' rng
            then Some (Some (if current \<ge> start rng then (1440 - current) + end' rng
                             else end' rng - current))
            else None)"
  using assms by (simp add: checkTimeRange_def Let_def)

theorem checkTimeRange_overnight_witness:
  "end' \<lparr>start = 1320, end' = 60, is24h = False\<rparr> < start \<lparr>start = 1320, end' = 60, is24h = False\<rparr>
   \<and> map_option minutesUntilClose
         (checkTimeRange \<lparr>start = 1320, end' = 60, is24h = False\<rparr> 30 (js ''10:00 PM - 1:00 AM''))
       = Some (Some 30)
   \<and> map_option minutesUntilClose
         (checkTimeRange \<lparr>start = 1320, end' = 60, is24h = False\<rparr> 1439 (js ''10:00 PM - 1:00 AM''))
       = Some (Some 61)
   \<and> checkTimeRange \<lparr>start = 1320, end' = 60, is24h = False\<rparr> 600 (js ''10:00 PM - 1:00 AM'')
       = None"
proof -
  let ?r = "\<lparr>start = 1320, end' = 60, is24h = False\<rparr>"
  have w: "end' ?r < start ?r" by simp
  show ?thesis
    using w checkTimeRange_overnight [OF w, of 30] checkTimeRange_overnight [OF w, of 1439]
      checkTimeRange_overnight [OF w, of 600]
    by simp
qed

lemma checkTimeRange_consistent:
  "checkTimeRange rng current th = Some res \<Longrightarrow>
     isOpen res \<and> (status res = Open \<or> status res = ClosingSoon)
     \<and> (isClosingSoon res \<longleftrightarrow> status res = ClosingSoon) \<and> todayHours res = Some th"
  by (auto simp: checkTimeRange_def Let_def split: if_splits)

lemma check_ranges_consistent:
  "check_ranges rs current th = Some res \<Longrightarrow>
     isOpen res \<and> (status res = Open \<or> status res = ClosingSoon)
     \<and> (isClosingSoon res \<longleftrightarrow> status res = ClosingSoon) \<and> todayHours res = Some th"
proof (induction rs)
  case Nil
  then show ?case by simp
next
  case (Cons r rs)
  show ?case
  proof (cases "is24h r")
    case True
    with Cons.prems show ?thesis by auto
  next
    case False
    show ?thesis
    proof (cases "checkTimeRange r current th")
      case None
      with False Cons show ?thesis by simp
    next
      case (Some x)
      with False Cons.prems have "x = res" by simp
      with Some show ?thesis
        using checkTimeRange_consistent by blast
    qed
  qed
qed

lemma getOpenStatus_cases:
  "getOpenStatus hours d =
     \<lparr>isOpen = False, isClosingSoon = False, status = Unknown, minutesUntilClose = None,
      closesAt = None, opensAt = None, todayHours = None\<rparr>
     \<and> (getTodayHours hours d = None \<or> (\<exists>td. getTodayHours hours d = Some td \<and> ranges td = None))
   \<or> (\<exists>td rs. getTodayHours hours d = Some td \<and> ranges td = Some rs
         \<and> (check_ranges rs (getHours d * 60 + getMinutes d) (timeStr td) = Some (getOpenStatus hours d)
             \<or> check_ranges rs (getHours d * 60 + getMinutes d) (timeStr td) = None
               \<and> getOpenStatus hours d =
                   \<lparr>isOpen = False, isClosingSoon = False, status = Closed,
                    minutesUntilClose = None, closesAt = None,
                    opensAt = Some (findNextOpenTime hours d),
                    todayHours = Some (timeStr td)\<rparr>))"
  by (auto simp: getOpenStatus_def Let_def split: option.splits)

lemma parseTime_nonneg: "parseTime text e s = Some v \<Longrightarrow> 0 \<le> v"
proof -
  assume "parseTime text e s = Some v"
  then obtain h m p where mt: "match_time (trim text) = Some (h, m, p)"
    and v: "v = convertHour h m p e s * 60 + m"
    unfolding parseTime_Some by blast
  from mt have "0 \<le> h \<and> 0 \<le> m"
    using match_time_bounds by blast
  then show ?thesis
    unfolding v using convertHour_bounds [of h m p e s] by simp
qed

lemma parse_period_nonneg: "parse_period p = Some r \<Longrightarrow> 0 \<le> start r \<and> 0 \<le> end' r"
  by (auto simp: parse_period_def Let_def split: list.splits option.splits
           dest: parseTime_nonneg)

lemma collect_periods_nonneg: "r \<in> set (collect_periods ps) \<Longrightarrow> 0 \<le> start r \<and> 0 \<le> end' r"
  by (induction ps) (auto split: option.splits dest: parse_period_nonneg)

lemma parseTimeRange_nonneg:
  "parseTimeRange x = Some rs \<Longrightarrow> r \<in> set rs \<Longrightarrow> 0 \<le> start r \<and> 0 \<le> end' r"
  by (auto simp: parseTimeRange_def Let_def split: option.splits if_splits
           dest: collect_periods_nonneg)

lemma getTodayHours_nonneg:
  "getTodayHours hours d = Some td \<Longrightarrow> ranges td = Some rs \<Longrightarrow> r \<in> set rs \<Longrightarrow>
     0 \<le> start r \<and> 0 \<le> end' r"
  by (auto simp: getTodayHours_def Let_def split: option.splits if_splits
           dest: parseTimeRange_nonneg)

lemma checkTimeRange_positive:
  "0 \<le> end' rng \<Longrightarrow> current < 1440 \<Longrightarrow> checkTimeRange rng current th = Some res \<Longrightarrow>
     minutesUntilClose res = Some (until_close rng current) \<and> 0 < until_close rng current
     \<and> (status res = ClosingSoon \<longleftrightarrow> until_close rng current \<le> 45)"
  by (auto simp: checkTimeRange_def until_close_def Let_def CLOSING_SOON_MINUTES_def
           split: if_splits)

lemma check_ranges_positive:
  "\<forall>r\<in>set rs. 0 \<le> end' r \<Longrightarrow> current < 1440 \<Longrightarrow> check_ranges rs current th = Some res \<Longrightarrow>
     minutesUntilClose res = Some mu \<Longrightarrow> 0 < mu \<and> (status res = ClosingSoon \<longleftrightarrow> mu \<le> 45)"
proof (induction rs)
  case Nil
  then show ?case by simp
next
  case (Cons r rs)
  show ?case
  proof (cases "is24h r")
    case True
    with Cons.prems show ?thesis by auto
  next
    case False
    show ?thesis
    proof (cases "checkTimeRange r current th")
      case None
      with False Cons show ?thesis by simp
    next
      case (Some x)
      with False Cons.prems have "x = res" by simp
      with Some Cons.prems show ?thesis
        using checkTimeRange_positive [of r current th res] by simp
    qed
  qed
qed

lemma getOpenStatus_positive:
  assumes "getHours d \<le> 23" and "getMinutes d \<le> 59"
    and "minutesUntilClose (getOpenStatus hours d) = Some mu"
  shows "0 < mu \<and> (status (getOpenStatus hours d) = ClosingSoon \<longleftrightarrow> mu \<le> 45)"
proof -
  have cur: "getHours d * 60 + getMinutes d < 1440"
    using assms(1,2) by simp
  from getOpenStatus_cases [of hours d] assms(3)
  obtain td rs where td: "getTodayHours hours d = Some td" "ranges td = Some rs"
    and c: "check_ranges rs (getHours d * 60 + getMinutes d) (timeStr td) = Some (getOpenStatus hours d)"
    by (elim disjE conjE exE) auto
  have "\<forall>r\<in>set rs. 0 \<le> end' r"
    using getTodayHours_nonneg [OF td] by blast
  from check_ranges_positive [OF this cur c assms(3)] show ?thesis .
qed

lemma checkTimeRange_past_close:
  "0 \<le> end' rng \<Longrightarrow> current < 1440 \<Longrightarrow> until_close rng current \<le> 0 \<Longrightarrow>
     checkTimeRange rng current th = None"
  by (auto simp: checkTimeRange_def until_close_def Let_def split: if_splits)

lemma check_ranges_past_close:
  "\<forall>x\<in>set pre. \<not> is24h x \<and> 0 \<le> end' x \<and> until_close x current \<le> 0 \<Longrightarrow>
   current < 1440 \<Longrightarrow>
     check_ranges (pre @ rest) current th = check_ranges rest current th"
proof (induction pre)
  case Nil
  then show ?case by simp
next
  case (Cons x pre)
  then have "checkTimeRange x current th = None"
    by (intro checkTimeRange_past_close) auto
  with Cons show ?case by simp
qed

lemma getOpenStatus_next_range:
  assumes "getHours d \<le> 23" and "getMinutes d \<le> 59"
    and "getTodayHours hours d = Some td" and "ranges td = Some (pre @ r # post)"
    and "\<forall>x\<in>set pre. \<not> is24h x \<and> until_close x (getHours d * 60 + getMinutes d) \<le> 0"
    and "\<not> is24h r"
    and "checkTimeRange r (getHours d * 60 + getMinutes d) (timeStr td) = Some res"
  shows "getOpenStatus hours d = res"
proof -
  have cur: "getHours d * 60 + getMinutes d < 1440"
    using assms(1,2) by simp
  have "\<forall>x\<in>set pre. 0 \<le> end' x"
    using getTodayHours_nonneg [OF assms(3,4)] by simp
  with assms(5)
  have "\<forall>x\<in>set pre. \<not> is24h x \<and> 0 \<le> end' x
          \<and> until_close x (getHours d * 60 + getMinutes d) \<le> 0"
    by blast
  from check_ranges_past_close [OF this cur]
  have "check_ranges (pre @ r # post) (getHours d * 60 + getMinutes d) (timeStr td)
          = check_ranges (r # post) (getHours d * 60 + getMinutes d) (timeStr td)" .
  also have "\<dots> = Some res"
    using assms(6,7) by simp
  finally show ?thesis
    using assms(3,4) by (simp add: getOpenStatus_def)
qed

lemma getOpenStatus_closed:
  assumes "getHours d \<le> 23" and "getMinutes d \<le> 59"
    and "getTodayHours hours d = Some td" and "ranges td = Some rs"
    and "\<forall>x\<in>set rs. \<not> is24h x \<and> until_close x (getHours d * 60 + getMinutes d) \<le> 0"
  shows "getOpenStatus hours d =
           \<lparr>isOpen = False, isClosingSoon = False, status = Closed,
            minutesUntilClose = None, closesAt = None,
            opensAt = Some (findNextOpenTime hours d),
            todayHours = Some (timeStr td)\<rparr>"
proof -
  have cur: "getHours d * 60 + getMinutes d < 1440"
    using assms(1,2) by simp
  have "\<forall>x\<in>set rs. 0 \<le> end' x"
    using getTodayHours_nonneg [OF assms(3,4)] by simp
  with assms(5)
  have "\<forall>x\<in>set rs. \<not> is24h x \<and> 0 \<le> end' x
          \<and> until_close x (getHours d * 60 + getMinutes d) \<le> 0"
    by blast
  from check_ranges_past_close [OF this cur, of "[]"]
  have "check_ranges rs (getHours d * 60 + getMinutes d) (timeStr td) = None"
    by simp
  then show ?thesis
    using assms(3,4) by (simp add: getOpenStatus_def)
qed

text \<open>
  Claim C4. When \<^verbatim>\<open>checkTimeRange\<close> matches a range, the status is closing-soon exactly
  when the minutes until close are above 0 and at most 45, and open otherwise; 45 gives
  closing-soon, 46 gives open. A current minute of the day (below 1440) at or past the
  close of a range that ends at a minute of 0 or more (the minutes until close would be 0
  or less) does not match the range, and the loop of \<^verbatim>\<open>getOpenStatus\<close> goes on with the
  ranges that follow. On \<^verbatim>\<open>getOpenStatus\<close> itself, for a date with an hour up to 23 and
  a minute up to 59: the minutes until close that it reports are always above 0, and the
  status is closing-soon exactly when they are at most 45; when the first ranges of today
  are at or past their close, the result is that of the first range after them that
  matches; and when every range of today is at or past its close, the result is the closed
  outcome, with \<^verbatim>\<open>opensAt\<close> from \<^verbatim>\<open>findNextOpenTime\<close> and \<^verbatim>\<open>todayHours\<close> set.
\<close>

theorem closing_soon_window:
  "(checkTimeRange rng current th = Some res \<longrightarrow>
      minutesUntilClose res = Some (until_close rng current)
      \<and> (status res = ClosingSoon \<longleftrightarrow> 0 < until_close rng current \<and> until_close rng current \<le> 45)
      \<and> (status res = Open \<longleftrightarrow> \<not> (0 < until_close rng current \<and> until_close rng current \<le> 45))
      \<and> (until_close rng current = 45 \<longrightarrow> status res = ClosingSoon)
      \<and> (until_close rng current = 46 \<longrightarrow> status res = Open))
   \<and> (0 \<le> end' rng \<and> current < 1440 \<and> until_close rng current \<le> 0 \<longrightarrow>
        checkTimeRange rng current th = None
        \<and> (\<not> is24h rng \<longrightarrow> check_ranges (rng # rs) current th = check_ranges rs current th))
   \<and> (getHours d \<le> 23 \<and> getMinutes d \<le> 59
        \<and> minutesUntilClose (getOpenStatus hours d) = Some mu \<longrightarrow>
        0 < mu \<and> (status (getOpenStatus hours d) = ClosingSoon \<longleftrightarrow> mu \<le> 45))
   \<and> (getHours d \<le> 23 \<and> getMinutes d \<le> 59
        \<and> getTodayHours hours d = Some td \<and> ranges td = Some (pre @ r # post)
        \<and> (\<forall>x\<in>set pre. \<not> is24h x \<and> until_close x (getHours d * 60 + getMinutes d) \<le> 0)
        \<and> \<not> is24h r
        \<and> checkTimeRange r (getHours d * 60 + getMinutes d) (timeStr td) = Some res' \<longrightarrow>
        getOpenStatus hours d = res')
   \<and> (getHours d \<le> 23 \<and> getMinutes d \<le> 59
        \<and> getTodayHours hours d = Some td \<and> ranges td = Some rs'
        \<and> (\<forall>x\<in>set rs'. \<not> is24h x \<and> until_close x (getHours d * 60 + getMinutes d) \<le> 0) \<longrightarrow>
        getOpenStatus hours d =
          \<lparr>isOpen = False, isClosingSoon = False, status = Closed,
           minutesUntilClose = None, closesAt = None,
           opensAt = Some (findNextOpenTime hours d),
           todayHours = Some (timeStr td)\<rparr>)"
proof (intro conjI)
  show "checkTimeRange rng current th = Some res \<longrightarrow>
      minutesUntilClose res = Some (until_close rng current)
      \<and> (status res = ClosingSoon \<longleftrightarrow> 0 < until_close rng current \<and> until_close rng current \<le> 45)
      \<and> (status res = Open \<longleftrightarrow> \<not> (0 < until_close rng current \<and> until_close rng current \<le> 45))
      \<and> (until_close rng current = 45 \<longrightarrow> status res = ClosingSoon)
      \<and> (until_close rng current = 46 \<longrightarrow> status res = Open)"
    by (auto simp: checkTimeRange_def until_close_def Let_def CLOSING_SOON_MINUTES_def
             split: if_splits)
  show "0 \<le> end' rng \<and> current < 1440 \<and> until_close rng current \<le> 0 \<longrightarrow>
        checkTimeRange rng current th = None
        \<and> (\<not> is24h rng \<longrightarrow> check_ranges (rng # rs) current th = check_ranges rs current th)"
    by (auto simp: checkTimeRange_def until_close_def Let_def split: if_splits)
  show "getHours d \<le> 23 \<and> getMinutes d \<le> 59
        \<and> minutesUntilClose (getOpenStatus hours d) = Some mu \<longrightarrow>
        0 < mu \<and> (status (getOpenStatus hours d) = ClosingSoon \<longleftrightarrow> mu \<le> 45)"
    using getOpenStatus_positive [of d hours mu] by blast
  show "getHours d \<le> 23 \<and> getMinutes d \<le> 59
        \<and> getTodayHours hours d = Some td \<and> ranges td = Some (pre @ r # post)
        \<and> (\<forall>x\<in>set pre. \<not> is24h x \<and> until_close x (getHours d * 60 + getMinutes d) \<le> 0)
        \<and> \<not> is24h r
        \<and> checkTimeRange r (getHours d * 60 + getMinutes d) (timeStr td) = Some res' \<longrightarrow>
        getOpenStatus hours d = res'"
    by (intro impI, elim conjE) (rule getOpenStatus_next_range)
  show "getHours d \<le> 23 \<and> getMinutes d \<le> 59
        \<and> getTodayHours hours d = Some td \<and> ranges td = Some rs'
        \<and> (\<forall>x\<in>set rs'. \<not> is24h x \<and> until_close x (getHours d * 60 + getMinutes d) \<le> 0) \<longrightarrow>
        getOpenStatus hours d =
          \<lparr>isOpen = False, isClosingSoon = False, status = Closed,
           minutesUntilClose = None, closesAt = None,
           opensAt = Some (findNextOpenTime hours d),
           todayHours = Some (timeStr td)\<rparr>"
    by (intro impI, elim conjE) (rule getOpenStatus_closed)
qed

lemma monday_1800_hours:
  "getTodayHours monday_only monday_1800
   = Some \<lparr>dayName = js ''Monday'', timeStr = js ''9:00 AM - 5:00 PM'',
            ranges = Some [\<lparr>start = 540, end' = 1020, is24h = False\<rparr>]\<rparr>"
  by (simp add: monday_only_def monday_1800_def day_eval parse_eval range_eval)

lemma split_shift_hours:
  "getTodayHours split_shift monday_1730
   = Some \<lparr>dayName = js ''Monday'', timeStr = js ''11:00 AM - 3:00 PM, 5:00 - 10:00 PM'',
            ranges = Some [\<lparr>start = 660, end' = 900, is24h = False\<rparr>,
                           \<lparr>start = 1020, end' = 1320, is24h = False\<rparr>]\<rparr>"
  by (simp add: split_shift_def monday_1730_def day_eval parse_eval range_eval)

lemma monday_closed:
  "getTodayHours monday_closed_only monday_1630
   = Some \<lparr>dayName = js ''Monday'', timeStr = js ''Closed'', ranges = None\<rparr>"
  by (simp add: monday_closed_only_def monday_1630_def day_eval parse_eval range_eval)

lemma monday_9_to_5:
  "getTodayHours monday_only monday_1630
   = Some \<lparr>dayName = js ''Monday'', timeStr = js ''9:00 AM - 5:00 PM'',
            ranges = Some [\<lparr>start = 540, end' = 1020, is24h = False\<rparr>]\<rparr>"
  by (simp add: monday_only_def monday_1630_def day_eval parse_eval range_eval)

lemma monday_1630_status:
  "getOpenStatus monday_only monday_1630
   = \<lparr>isOpen = True, isClosingSoon = True, status = ClosingSoon, minutesUntilClose = Some 30,
      closesAt = Some (js ''5:00 PM''), opensAt = None,
      todayHours = Some (js ''9:00 AM - 5:00 PM'')\<rparr>"
proof -
  have cur: "getHours monday_1630 * 60 + getMinutes monday_1630 = 990"
    by (simp add: monday_1630_def)
  have "js_rem 1020 1440 = 1020"
    by (simp add: js_rem_def)
  then have "checkTimeRange \<lparr>start = 540, end' = 1020, is24h = False\<rparr> 990 (js ''9:00 AM - 5:00 PM'')
      = Some \<lparr>isOpen = True, isClosingSoon = True, status = ClosingSoon,
               minutesUntilClose = Some 30, closesAt = Some (js ''5:00 PM''), opensAt = None,
               todayHours = Some (js ''9:00 AM - 5:00 PM'')\<rparr>"
    by (simp add: checkTimeRange_def CLOSING_SOON_MINUTES_def fmt_examples)
  then show ?thesis
    by (simp add: getOpenStatus_def monday_9_to_5 cur)
qed

theorem closing_soon_window_witness:
  "map_option status (checkTimeRange \<lparr>start = 540, end' = 1020, is24h = False\<rparr> 975 (js ''9:00 AM - 5:00 PM''))
     = Some ClosingSoon
   \<and> until_close \<lparr>start = 540, end' = 1020, is24h = False\<rparr> 975 = 45
   \<and> map_option status (checkTimeRange \<lparr>start = 540, end' = 1020, is24h = False\<rparr> 974 (js ''9:00 AM - 5:00 PM''))
     = Some Open
   \<and> until_close \<lparr>start = 540, end' = 1020, is24h = False\<rparr> 974 = 46
   \<and> until_close \<lparr>start = 540, end' = 1020, is24h = False\<rparr> 1020 = 0
   \<and> checkTimeRange \<lparr>start = 540, end' = 1020, is24h = False\<rparr> 1020 (js ''9:00 AM - 5:00 PM'') = None
   \<and> check_ranges [\<lparr>start = 540, end' = 1020, is24h = False\<rparr>] 1020 (js ''9:00 AM - 5:00 PM'') = None
   \<and> minutesUntilClose (getOpenStatus monday_only monday_1630) = Some 30
   \<and> status (getOpenStatus monday_only monday_1630) = ClosingSoon
   \<and> getOpenStatus split_shift monday_1730
       = \<lparr>isOpen = True, isClosingSoon = False, status = Open, minutesUntilClose = Some 270,
          closesAt = Some (js ''10:00 PM''), opensAt = None,
          todayHours = Some (js ''11:00 AM - 3:00 PM, 5:00 - 10:00 PM'')\<rparr>
   \<and> getOpenStatus monday_only monday_1800
       = \<lparr>isOpen = False, isClosingSoon = False, status = Closed, minutesUntilClose = None,
          closesAt = None, opensAt = Some (findNextOpenTime monday_only monday_1800),
          todayHours = Some (js ''9:00 AM - 5:00 PM'')\<rparr>"
proof -
  let ?r = "\<lparr>start = 540, end' = 1020, is24h = False\<rparr>"
  let ?th = "js ''9:00 AM - 5:00 PM''"
  have u: "until_close ?r 975 = 45" "until_close ?r 974 = 46" "until_close ?r 1020 = 0"
    by (simp_all add: until_close_def)
  obtain r1 where r1: "checkTimeRange ?r 975 ?th = Some r1"
    by (simp add: checkTimeRange_def Let_def)
  obtain r2 where r2: "checkTimeRange ?r 974 ?th = Some r2"
    by (simp add: checkTimeRange_def Let_def)
  have s1: "status r1 = ClosingSoon"
    using closing_soon_window [where rng = ?r and current = 975 and th = ?th and res = r1,
        THEN conjunct1] r1 u by simp
  have s2: "status r2 = Open"
    using closing_soon_window [where rng = ?r and current = 974 and th = ?th and res = r2,
        THEN conjunct1] r2 u by simp
  have n: "checkTimeRange ?r 1020 ?th = None
           \<and> check_ranges (?r # []) 1020 ?th = check_ranges [] 1020 ?th"
    using closing_soon_window [where rng = ?r and current = 1020 and th = ?th and rs = "[]",
        THEN conjunct2, THEN conjunct1] u by simp
  have d: "getHours monday_1630 \<le> 23 \<and> getMinutes monday_1630 \<le> 59"
    by (simp add: monday_1630_def)
  have m: "minutesUntilClose (getOpenStatus monday_only monday_1630) = Some 30"
    by (simp add: monday_1630_status)
  have g: "status (getOpenStatus monday_only monday_1630) = ClosingSoon"
    using closing_soon_window [where d = monday_1630 and hours = monday_only and mu = 30,
        THEN conjunct2, THEN conjunct2, THEN conjunct1] d m
    by simp
  let ?lunch = "\<lparr>start = 660, end' = 900, is24h = False\<rparr>"
  let ?dinner = "\<lparr>start = 1020, end' = 1320, is24h = False\<rparr>"
  let ?both = "js ''11:00 AM - 3:00 PM, 5:00 - 10:00 PM''"
  let ?td = "\<lparr>dayName = js ''Monday'', timeStr = ?both, ranges = Some [?lunch, ?dinner]\<rparr>"
  let ?open = "\<lparr>isOpen = True, isClosingSoon = False, status = Open, minutesUntilClose = Some 270,
          closesAt = Some (js ''10:00 PM''), opensAt = None, todayHours = Some ?both\<rparr>"
  have f1: "getHours monday_1730 \<le> 23" and f2: "getMinutes monday_1730 \<le> 59"
    and fc: "getHours monday_1730 * 60 + getMinutes monday_1730 = 1050"
    by (simp_all add: monday_1730_def)
  have f3: "getTodayHours split_shift monday_1730 = Some ?td"
    by (rule split_shift_hours)
  have f4: "ranges ?td = Some ([?lunch] @ ?dinner # [])"
    by simp
  have f5: "\<forall>x\<in>set [?lunch].
              \<not> is24h x \<and> until_close x (getHours monday_1730 * 60 + getMinutes monday_1730) \<le> 0"
    unfolding fc by (simp add: until_close_def)
  have f6: "\<not> is24h ?dinner"
    by simp
  have "js_rem 1320 1440 = 1320"
    by (simp add: js_rem_def)
  then have f7: "checkTimeRange ?dinner (getHours monday_1730 * 60 + getMinutes monday_1730)
                   (timeStr ?td) = Some ?open"
    unfolding fc by (simp add: checkTimeRange_def CLOSING_SOON_MINUTES_def fmt_examples)
  have f: "getOpenStatus split_shift monday_1730 = ?open"
    using closing_soon_window [where d = monday_1730 and hours = split_shift and td = ?td
        and pre = "[?lunch]" and r = ?dinner and post = "[]" and res' = ?open,
        THEN conjunct2, THEN conjunct2, THEN conjunct2, THEN conjunct1, THEN mp,
        OF conjI [OF f1 conjI [OF f2 conjI [OF f3 conjI [OF f4 conjI [OF f5 conjI [OF f6 f7]]]]]]] .
  let ?td9 = "\<lparr>dayName = js ''Monday'', timeStr = ?th, ranges = Some [?r]\<rparr>"
  have c1: "getHours monday_1800 \<le> 23" and c2: "getMinutes monday_1800 \<le> 59"
    and cc: "getHours monday_1800 * 60 + getMinutes monday_1800 = 1080"
    by (simp_all add: monday_1800_def)
  have c3: "getTodayHours monday_only monday_1800 = Some ?td9"
    by (rule monday_1800_hours)
  have c4: "ranges ?td9 = Some [?r]"
    by simp
  have c5: "\<forall>x\<in>set [?r].
              \<not> is24h x \<and> until_close x (getHours monday_1800 * 60 + getMinutes monday_1800) \<le> 0"
    unfolding cc by (simp add: until_close_def)
  have c: "getOpenStatus monday_only monday_1800
       = \<lparr>isOpen = False, isClosingSoon = False, status = Closed, minutesUntilClose = None,
          closesAt = None, opensAt = Some (findNextOpenTime monday_only monday_1800),
          todayHours = Some (timeStr ?td9)\<rparr>"
    using closing_soon_window [where d = monday_1800 and hours = monday_only and td = ?td9
        and rs' = "[?r]",
        THEN conjunct2, THEN conjunct2, THEN conjunct2, THEN conjunct2, THEN mp,
        OF conjI [OF c1 conjI [OF c2 conjI [OF c3 conjI [OF c4 c5]]]]] .
  show ?thesis
    using r1 r2 s1 s2 n u m g f c by simp
qed

text \<open>
  Claim C10. The result of \<^verbatim>\<open>getOpenStatus\<close> is consistent: \<^verbatim>\<open>isOpen\<close> holds exactly
  when the status is open or closing-soon, and \<^verbatim>\<open>isClosingSoon\<close> exactly when it is
  closing-soon.
\<close>

theorem getOpenStatus_consistent:
  "(isOpen (getOpenStatus hours d) \<longleftrightarrow>
      status (getOpenStatus hours d) = Open \<or> status (getOpenStatus hours d) = ClosingSoon)
   \<and> (isClosingSoon (getOpenStatus hours d) \<longleftrightarrow> status (getOpenStatus hours d) = ClosingSoon)"
  using getOpenStatus_cases [of hours d]
  by (elim disjE conjE exE) (auto dest: check_ranges_consistent)

lemma getTodayHours_None_iff:
  "getTodayHours hours d = None \<longleftrightarrow>
     hours = None \<or> hours = Some []
     \<or> (\<exists>hs. hours = Some hs \<and> (\<forall>h\<in>set hs. \<not> is_entry_of (day_name (getDay d)) h))"
proof (cases hours)
  case None
  then show ?thesis by (simp add: getTodayHours_def)
next
  case (Some hs)
  show ?thesis
  proof (cases "find (is_entry_of (day_name (getDay d))) hs")
    case None
    have "getTodayHours hours d = None"
      using Some None by (simp add: getTodayHours_def Let_def)
    moreover have "\<forall>h\<in>set hs. \<not> is_entry_of (day_name (getDay d)) h"
      using None by (simp add: find_None_iff)
    ultimately show ?thesis
      using Some by auto
  next
    case f: (Some x)
    then have x: "is_entry_of (day_name (getDay d)) x" and mem: "x \<in> set hs"
      by (auto simp: find_Some_iff)
    then obtain entry where e: "x = Some entry" "entry \<noteq> []"
      by (auto simp: is_entry_of_def split: option.splits)
    have "hs \<noteq> []" using mem by auto
    with Some f e x mem show ?thesis
      by (auto simp: getTodayHours_def Let_def)
  qed
qed

text \<open>
  Claim C8. The status is unknown exactly when the weekly hours are \<^verbatim>\<open>null\<close> or empty,
  or hold no entry for the weekday of the reference date, or the entry of that weekday
  has no range that parses. The result then has \<^verbatim>\<open>isOpen = false\<close> and none of the
  further fields; every other result has the field \<^verbatim>\<open>todayHours\<close>.
\<close>

theorem getOpenStatus_unknown:
  "(status (getOpenStatus hours d) = Unknown \<longleftrightarrow>
      hours = None \<or> hours = Some []
      \<or> (\<exists>hs. hours = Some hs \<and> (\<forall>h\<in>set hs. \<not> is_entry_of (day_name (getDay d)) h))
      \<or> (\<exists>td. getTodayHours hours d = Some td \<and> ranges td = None))
   \<and> (status (getOpenStatus hours d) = Unknown \<longrightarrow>
        getOpenStatus hours d =
          \<lparr>isOpen = False, isClosingSoon = False, status = Unknown, minutesUntilClose = None,
           closesAt = None, opensAt = None, todayHours = None\<rparr>)
   \<and> (status (getOpenStatus hours d) \<noteq> Unknown \<longrightarrow> todayHours (getOpenStatus hours d) \<noteq> None)"
proof -
  have u: "status (getOpenStatus hours d) = Unknown \<longleftrightarrow>
             getTodayHours hours d = None
             \<or> (\<exists>td. getTodayHours hours d = Some td \<and> ranges td = None)"
    using getOpenStatus_cases [of hours d]
    by (elim disjE conjE exE) (auto dest: check_ranges_consistent)
  have f: "status (getOpenStatus hours d) = Unknown \<longrightarrow>
        getOpenStatus hours d =
          \<lparr>isOpen = False, isClosingSoon = False, status = Unknown, minutesUntilClose = None,
           closesAt = None, opensAt = None, todayHours = None\<rparr>"
    using getOpenStatus_cases [of hours d]
    by (elim disjE conjE exE) (auto dest: check_ranges_consistent)
  have t: "status (getOpenStatus hours d) \<noteq> Unknown \<longrightarrow> todayHours (getOpenStatus hours d) \<noteq> None"
    using getOpenStatus_cases [of hours d]
    by (elim disjE conjE exE) (auto dest: check_ranges_consistent)
  show ?thesis
    using u f t unfolding getTodayHours_None_iff by blast
qed


theorem getOpenStatus_unknown_witness:
  "status (getOpenStatus None monday_1630) = Unknown
   \<and> status (getOpenStatus (Some []) monday_1630) = Unknown
   \<and> getOpenStatus monday_closed_only monday_1630
       = \<lparr>isOpen = False, isClosingSoon = False, status = Unknown, minutesUntilClose = None,
          closesAt = None, opensAt = None, todayHours = None\<rparr>
   \<and> status (getOpenStatus monday_only monday_1630) = ClosingSoon
   \<and> todayHours (getOpenStatus monday_only monday_1630) \<noteq> None"
proof -
  have a: "status (getOpenStatus None monday_1630) = Unknown"
    using getOpenStatus_unknown [of None monday_1630] by simp
  have b: "status (getOpenStatus (Some []) monday_1630) = Unknown"
    using getOpenStatus_unknown [of "Some []" monday_1630] by simp
  have "status (getOpenStatus monday_closed_only monday_1630) = Unknown"
    using getOpenStatus_unknown [of monday_closed_only monday_1630] monday_closed
    by simp
  then have c: "getOpenStatus monday_closed_only monday_1630
       = \<lparr>isOpen = False, isClosingSoon = False, status = Unknown, minutesUntilClose = None,
          closesAt = None, opensAt = None, todayHours = None\<rparr>"
    using getOpenStatus_unknown [of monday_closed_only monday_1630] by blast
  have s: "status (getOpenStatus monday_only monday_1630) = ClosingSoon"
    by (simp add: monday_1630_status)
  then have e: "todayHours (getOpenStatus monday_only monday_1630) \<noteq> None"
    using getOpenStatus_unknown [of monday_only monday_1630] by simp
  from a b c s e show ?thesis by blast
qed

theorem getOpenStatus_consistent_witness:
  "status (getOpenStatus monday_only monday_1630) = ClosingSoon
   \<and> isOpen (getOpenStatus monday_only monday_1630)
   \<and> isClosingSoon (getOpenStatus monday_only monday_1630)"
proof -
  have s: "status (getOpenStatus monday_only monday_1630) = ClosingSoon"
    by (simp add: monday_1630_status)
  then show ?thesis
    using getOpenStatus_consistent [of monday_only monday_1630] by simp
qed

section \<open>Properties of the range parser\<close>

lemma js_includes_iff: "js_includes s t \<longleftrightarrow> (\<exists>pre suf. s = pre @ t @ suf)"
proof (induction s)
  case Nil
  then show ?case by auto
next
  case (Cons c cs)
  show ?case
  proof
    assume "js_includes (c # cs) t"
    then consider "prefix t (c # cs)" | "js_includes cs t" by auto
    then show "\<exists>pre suf. c # cs = pre @ t @ suf"
    proof cases
      case 1
      then obtain suf where "c # cs = t @ suf" by (auto simp: prefix_def)
      then have "c # cs = [] @ t @ suf" by simp
      then show ?thesis by blast
    next
      case 2
      with Cons.IH obtain pre suf where "cs = pre @ t @ suf" by blast
      then have "c # cs = (c # pre) @ t @ suf" by simp
      then show ?thesis by blast
    qed
  next
    assume "\<exists>pre suf. c # cs = pre @ t @ suf"
    then obtain pre suf where e: "c # cs = pre @ t @ suf" by blast
    show "js_includes (c # cs) t"
    proof (cases pre)
      case Nil
      with e have "prefix t (c # cs)" by (simp add: prefix_def)
      then show ?thesis by simp
    next
      case (Cons a pre')
      with e have "cs = pre' @ t @ suf" by simp
      with Cons.IH have "js_includes cs t" by blast
      then show ?thesis by simp
    qed
  qed
qed

text \<open>
  Claim C7. For every string that contains \<^verbatim>\<open>"Open 24 hours"\<close>, whatever stands before
  and after it, \<^verbatim>\<open>parseTimeRange\<close> returns exactly one range, with \<open>start = 0\<close>,
  \<open>end = 1440\<close> and \<open>is24h = true\<close>.
\<close>

theorem parseTimeRange_open_24_hours:
  assumes "s = pre @ js ''Open 24 hours'' @ suf"
  shows "parseTimeRange (Some s) = Some [\<lparr>start = 0, end' = 1440, is24h = True\<rparr>]"
proof -
  have inc: "js_includes s (js ''Open 24 hours'')"
    unfolding js_includes_iff using assms by blast
  have "length s \<ge> 13"
    unfolding assms by (simp add: js_def)
  then have "s \<noteq> [] \<and> s \<noteq> js ''Closed''"
    by (auto simp: js_def)
  with inc show ?thesis
    by (simp add: parseTimeRange_def)
qed

theorem parseTimeRange_open_24_hours_witness:
  "js ''Mon, Open 24 hours (holidays 9:00 AM - 5:00 PM)''
     = js ''Mon, '' @ js ''Open 24 hours'' @ js '' (holidays 9:00 AM - 5:00 PM)''
   \<and> parseTimeRange (Some (js ''Mon, Open 24 hours (holidays 9:00 AM - 5:00 PM)''))
     = Some [\<lparr>start = 0, end' = 1440, is24h = True\<rparr>]"
proof -
  have a: "js ''Mon, Open 24 hours (holidays 9:00 AM - 5:00 PM)''
     = js ''Mon, '' @ js ''Open 24 hours'' @ js '' (holidays 9:00 AM - 5:00 PM)''"
    by (simp add: js_def)
  from a parseTimeRange_open_24_hours [OF a] show ?thesis
    by simp
qed

lemma split_on_append:
  "split_on sep cur (a @ sep # b) = split_on sep cur a @ split_on sep [] b"
  by (induction a arbitrary: cur) auto

lemma split_on_no_sep: "sep \<notin> set s \<Longrightarrow> split_on sep cur s = [cur @ s]"
  by (induction s arbitrary: cur) auto

lemma collect_periods_append:
  "collect_periods (xs @ ys) = collect_periods xs @ collect_periods ys"
  by (induction xs) (auto split: option.splits)

lemma collect_periods_map_filter: "collect_periods ps = List.map_filter parse_period ps"
  by (induction ps) (auto simp: map_filter_simps split: option.splits)

lemma collect_periods_Nil_iff:
  "collect_periods ps = [] \<longleftrightarrow> (\<forall>p\<in>set ps. parse_period p = None)"
  by (induction ps) (auto split: option.splits)

lemma parseTimeRange_periods:
  assumes "s \<noteq> []" and "s \<noteq> js ''Closed''" and "\<not> js_includes s (js ''Open 24 hours'')"
  shows "parseTimeRange (Some s) =
           (if collect_periods (map trim (split_on 44 [] s)) = [] then None
            else Some (collect_periods (map trim (split_on 44 [] s))))"
  using assms by (simp add: parseTimeRange_def Let_def)

text \<open>
  Claim C6. \<^verbatim>\<open>parseTimeRange\<close> never returns an empty sequence. It returns \<^verbatim>\<open>null\<close>
  exactly when the input is \<^verbatim>\<open>null\<close> or empty, or is the text \<^verbatim>\<open>"Closed"\<close>, or does
  not contain \<^verbatim>\<open>"Open 24 hours"\<close> and none of its periods parses. Otherwise the result
  holds every period that parses, in the order of the text; a malformed period between
  two commas changes nothing in what the rest of the string gives.
\<close>

theorem parseTimeRange_null:
  "parseTimeRange r \<noteq> Some []
   \<and> (parseTimeRange r = None \<longleftrightarrow>
        r = None \<or> r = Some [] \<or> r = Some (js ''Closed'')
        \<or> (\<exists>s. r = Some s \<and> \<not> js_includes s (js ''Open 24 hours'')
              \<and> (\<forall>p\<in>set (map trim (split_on 44 [] s)). parse_period p = None)))
   \<and> (parseTimeRange r = Some rs \<and> r = Some s \<and> \<not> js_includes s (js ''Open 24 hours'')
        \<longrightarrow> rs = List.map_filter parse_period (map trim (split_on 44 [] s)))
   \<and> (44 \<notin> set bad \<and> parse_period (trim bad) = None
        \<and> \<not> js_includes (a @ [44] @ bad @ [44] @ b) (js ''Open 24 hours'')
        \<and> \<not> js_includes (a @ [44] @ b) (js ''Open 24 hours'')
        \<longrightarrow> parseTimeRange (Some (a @ [44] @ bad @ [44] @ b)) = parseTimeRange (Some (a @ [44] @ b)))"
proof -
  have never_empty: "parseTimeRange r \<noteq> Some []"
    by (auto simp: parseTimeRange_def Let_def split: option.splits)
  have null_iff: "parseTimeRange r = None \<longleftrightarrow>
        r = None \<or> r = Some [] \<or> r = Some (js ''Closed'')
        \<or> (\<exists>s. r = Some s \<and> \<not> js_includes s (js ''Open 24 hours'')
              \<and> (\<forall>p\<in>set (map trim (split_on 44 [] s)). parse_period p = None))"
  proof (cases r)
    case None
    then show ?thesis by (simp add: parseTimeRange_def)
  next
    case (Some t)
    show ?thesis
    proof (cases "t = [] \<or> t = js ''Closed''")
      case True
      with Some show ?thesis by (auto simp: parseTimeRange_def)
    next
      case False
      show ?thesis
      proof (cases "js_includes t (js ''Open 24 hours'')")
        case True
        with False Some show ?thesis by (simp add: parseTimeRange_def)
      next
        case inc: False
        from False inc have "parseTimeRange (Some t) =
           (if collect_periods (map trim (split_on 44 [] t)) = [] then None
            else Some (collect_periods (map trim (split_on 44 [] t))))"
          by (simp add: parseTimeRange_periods)
        with Some False inc show ?thesis
          by (simp add: collect_periods_Nil_iff)
      qed
    qed
  qed
  have kept: "rs = List.map_filter parse_period (map trim (split_on 44 [] s))"
    if "parseTimeRange r = Some rs \<and> r = Some s \<and> \<not> js_includes s (js ''Open 24 hours'')"
    using that
    by (auto simp: parseTimeRange_def Let_def collect_periods_map_filter split: if_splits)
  have dropped: "parseTimeRange (Some (a @ [44] @ bad @ [44] @ b)) = parseTimeRange (Some (a @ [44] @ b))"
    if h: "44 \<notin> set bad \<and> parse_period (trim bad) = None
        \<and> \<not> js_includes (a @ [44] @ bad @ [44] @ b) (js ''Open 24 hours'')
        \<and> \<not> js_includes (a @ [44] @ b) (js ''Open 24 hours'')"
  proof -
    have ne: "a @ [44] @ bad @ [44] @ b \<noteq> js ''Closed''" "a @ [44] @ b \<noteq> js ''Closed''"
    proof -
      have "44 \<in> set (a @ [44] @ bad @ [44] @ b)" "44 \<in> set (a @ [44] @ b)" by simp_all
      moreover have "44 \<notin> set (js ''Closed'')" by (simp add: js_def)
      ultimately show "a @ [44] @ bad @ [44] @ b \<noteq> js ''Closed''" "a @ [44] @ b \<noteq> js ''Closed''"
        by metis+
    qed
    have s1: "split_on 44 [] (a @ [44] @ bad @ [44] @ b)
                = split_on 44 [] a @ [bad] @ split_on 44 [] b"
      using h by (simp add: split_on_append split_on_no_sep)
    have s2: "split_on 44 [] (a @ [44] @ b) = split_on 44 [] a @ split_on 44 [] b"
      by (simp add: split_on_append)
    have "collect_periods (map trim (split_on 44 [] (a @ [44] @ bad @ [44] @ b)))
            = collect_periods (map trim (split_on 44 [] (a @ [44] @ b)))"
      unfolding s1 s2 using h by (simp add: collect_periods_append)
    then show ?thesis
      using h ne by (simp add: parseTimeRange_periods)
  qed
  from never_empty null_iff kept dropped show ?thesis
    by blast
qed


lemma junk_period: "parse_period (js ''junk'') = None"
  by (simp add: parse_eval range_eval)

lemma two_shifts:
  "parseTimeRange (Some (js ''9:00 AM - 5:00 PM, 6:00 - 9:00 PM''))
     = Some [\<lparr>start = 540, end' = 1020, is24h = False\<rparr>,
             \<lparr>start = 1080, end' = 1260, is24h = False\<rparr>]"
  by (simp add: parse_eval range_eval)

theorem parseTimeRange_null_witness:
  "parseTimeRange (Some (js ''junk'')) = None
   \<and> parseTimeRange (Some (js ''9:00 AM - 5:00 PM, junk, 6:00 - 9:00 PM''))
       = Some [\<lparr>start = 540, end' = 1020, is24h = False\<rparr>,
               \<lparr>start = 1080, end' = 1260, is24h = False\<rparr>]
   \<and> List.map_filter parse_period
         (map trim (split_on 44 [] (js ''9:00 AM - 5:00 PM, 6:00 - 9:00 PM'')))
       = [\<lparr>start = 540, end' = 1020, is24h = False\<rparr>,
          \<lparr>start = 1080, end' = 1260, is24h = False\<rparr>]"
proof -
  have n: "\<not> js_includes (js ''junk'') (js ''Open 24 hours'')
           \<and> (\<forall>p\<in>set (map trim (split_on 44 [] (js ''junk''))). parse_period p = None)"
    using junk_period by (simp add: js_def trim_def is_space_def)
  have a: "parseTimeRange (Some (js ''junk'')) = None"
    using parseTimeRange_null [of "Some (js ''junk'')"] n by blast
  let ?a = "js ''9:00 AM - 5:00 PM''" and ?bad = "js '' junk''" and ?b = "js '' 6:00 - 9:00 PM''"
  have e1: "?a @ [44] @ ?bad @ [44] @ ?b = js ''9:00 AM - 5:00 PM, junk, 6:00 - 9:00 PM''"
    and e2: "?a @ [44] @ ?b = js ''9:00 AM - 5:00 PM, 6:00 - 9:00 PM''"
    by (simp_all add: js_def)
  have bad: "44 \<notin> set ?bad \<and> parse_period (trim ?bad) = None"
    using junk_period by (simp add: js_def trim_def is_space_def)
  have i1: "\<not> js_includes (?a @ [44] @ ?bad @ [44] @ ?b) (js ''Open 24 hours'')"
    by (simp add: js_def)
  have i2: "\<not> js_includes (?a @ [44] @ ?b) (js ''Open 24 hours'')"
    by (simp add: js_def)
  have "parseTimeRange (Some (?a @ [44] @ ?bad @ [44] @ ?b)) = parseTimeRange (Some (?a @ [44] @ ?b))"
    using parseTimeRange_null [where bad = ?bad and a = ?a and b = ?b] bad i1 i2 by blast
  then have b: "parseTimeRange (Some (js ''9:00 AM - 5:00 PM, junk, 6:00 - 9:00 PM''))
       = Some [\<lparr>start = 540, end' = 1020, is24h = False\<rparr>,
               \<lparr>start = 1080, end' = 1260, is24h = False\<rparr>]"
    unfolding e1 e2 two_shifts .
  have c: "List.map_filter parse_period
         (map trim (split_on 44 [] (js ''9:00 AM - 5:00 PM, 6:00 - 9:00 PM'')))
       = [\<lparr>start = 540, end' = 1020, is24h = False\<rparr>,
          \<lparr>start = 1080, end' = 1260, is24h = False\<rparr>]"
    using parseTimeRange_null [of "Some (js ''9:00 AM - 5:00 PM, 6:00 - 9:00 PM'')" _
        "js ''9:00 AM - 5:00 PM, 6:00 - 9:00 PM''"] two_shifts i2 e2
    by simp
  from a b c show ?thesis by blast
qed

section \<open>Properties of the search for the next opening\<close>

lemma scan_days_skip:
  "\<forall>j\<in>set pre. ranges_on hours (add_days d j) = [] \<Longrightarrow>
     scan_days hours d (pre @ rest) = scan_days hours d rest"
proof (induction pre)
  case Nil
  then show ?case by simp
next
  case (Cons j pre)
  then have "ranges_on hours (add_days d j) = []" by simp
  then have "scan_days hours d (j # (pre @ rest)) = scan_days hours d (pre @ rest)"
    by (auto simp: ranges_on_def Let_def split: option.splits list.splits)
  with Cons show ?case by simp
qed

lemma scan_days_hit:
  "ranges_on hours (add_days d i) = r # rs \<Longrightarrow>
     scan_days hours d (i # rest) =
       Some (day_label d i @ js '' at '' @ formatMinutesAsTime (start r))"
  by (auto simp: ranges_on_def day_label_def add_days_def Let_def split: option.splits)

lemma later_today:
  "hours = Some hs \<Longrightarrow> hs \<noteq> [] \<Longrightarrow>
   findNextOpenTime hours d =
     (case find (\<lambda>rng. start rng > getHours d * 60 + getMinutes d) (ranges_on hours d) of
        Some rng \<Rightarrow> Some (js ''today at '' @ formatMinutesAsTime (start rng))
      | None \<Rightarrow> scan_days hours d [1 ..< 8])"
  by (auto simp: findNextOpenTime_def ranges_on_def Let_def split: option.splits)

lemma no_hours: "hours = None \<or> hours = Some [] \<Longrightarrow> ranges_on hours d = []"
  by (auto simp: ranges_on_def getTodayHours_def)

lemma find_first:
  "xs = pre @ x # post \<Longrightarrow> \<forall>y\<in>set pre. \<not> P y \<Longrightarrow> P x \<Longrightarrow> find P xs = Some x"
  by (induction pre arbitrary: xs) auto

lemma find_none: "\<forall>y\<in>set xs. \<not> P y \<Longrightarrow> find P xs = None"
  by (simp add: find_None_iff)

lemma next_open_today:
  assumes "ranges_on hours d = pre @ r # post"
    and "\<forall>x\<in>set pre. \<not> start x > getHours d * 60 + getMinutes d"
    and "start r > getHours d * 60 + getMinutes d"
  shows "findNextOpenTime hours d = Some (js ''today at '' @ formatMinutesAsTime (start r))"
proof -
  from assms(1) have "ranges_on hours d \<noteq> []" by simp
  then obtain hs where hs: "hours = Some hs" "hs \<noteq> []"
    using no_hours [of hours d] by (cases hours) auto
  have "find (\<lambda>rng. start rng > getHours d * 60 + getMinutes d) (ranges_on hours d) = Some r"
    using assms by (intro find_first [of _ pre r post]) auto
  then show ?thesis
    using later_today [OF hs, of d] by simp
qed

lemma first_of_sorted:
  assumes "xs = pre @ r # post" and "\<forall>x\<in>set pre. \<not> start x > (c::int)" and "sorted (map start xs)"
    and "x \<in> set xs" and "start x > c"
  shows "start r \<le> start x"
proof -
  from assms(1,2,4,5) have "x = r \<or> x \<in> set post" by auto
  moreover from assms(1,3) have "\<forall>y\<in>set post. start r \<le> start y"
    by (simp add: sorted_append)
  ultimately show ?thesis by auto
qed

lemma next_open_later_day:
  assumes "\<forall>x\<in>set (ranges_on hours d). \<not> start x > getHours d * 60 + getMinutes d"
    and "1 \<le> i" and "i \<le> 7"
    and "\<forall>j\<in>{1 ..< i}. ranges_on hours (add_days d j) = []"
    and "ranges_on hours (add_days d i) = r # rs"
  shows "findNextOpenTime hours d
           = Some (day_label d i @ js '' at '' @ formatMinutesAsTime (start r))"
proof -
  from assms(5) have "ranges_on hours (add_days d i) \<noteq> []" by simp
  then obtain hs where hs: "hours = Some hs" "hs \<noteq> []"
    using no_hours [of hours "add_days d i"] by (cases hours) auto
  have none: "find (\<lambda>rng. start rng > getHours d * 60 + getMinutes d) (ranges_on hours d) = None"
    using assms(1) by (intro find_none) auto
  have "[1 ..< 8] = [1 ..< i] @ i # [Suc i ..< 8]"
    using assms(2,3) upt_add_eq_append [of 1 i "8 - i"] by (simp add: upt_conv_Cons)
  then have "scan_days hours d [1 ..< 8] = scan_days hours d (i # [Suc i ..< 8])"
    using assms(4) scan_days_skip [of "[1 ..< i]" hours d "i # [Suc i ..< 8]"] by simp
  also have "\<dots> = Some (day_label d i @ js '' at '' @ formatMinutesAsTime (start r))"
    using assms(5) by (rule scan_days_hit)
  finally show ?thesis
    using later_today [OF hs, of d] none by simp
qed

lemma next_open_none:
  assumes "\<forall>x\<in>set (ranges_on hours d). \<not> start x > getHours d * 60 + getMinutes d"
    and "\<forall>j\<in>{1 .. 7}. ranges_on hours (add_days d j) = []"
  shows "findNextOpenTime hours d = None"
proof (cases "hours = None \<or> hours = Some []")
  case True
  then show ?thesis by (auto simp: findNextOpenTime_def)
next
  case False
  then obtain hs where hs: "hours = Some hs" "hs \<noteq> []" by (cases hours) auto
  have none: "find (\<lambda>rng. start rng > getHours d * 60 + getMinutes d) (ranges_on hours d) = None"
    using assms(1) by (intro find_none) auto
  have "scan_days hours d ([1 ..< 8] @ []) = scan_days hours d []"
    using assms(2) by (intro scan_days_skip) auto
  then show ?thesis
    using later_today [OF hs, of d] none by simp
qed

text \<open>
  What \<^verbatim>\<open>findNextOpenTime\<close> computes. Among the ranges of today it stops at the first one,
  in the order of the text, that starts after the current minute; that is the earliest
  such start only when the ranges are listed by ascending start. With no such range it
  looks at the days 1 to 7 after the date in order and, for the first one with a range,
  returns the label of the day (\<^verbatim>\<open>tomorrow\<close> for 1, the name of the weekday otherwise),
  \<^verbatim>\<open>" at "\<close> and the formatted start of the first range of that day; it returns
  \<^verbatim>\<open>null\<close> when none of the seven days has a range.
\<close>

lemma findNextOpenTime_search:
  "(ranges_on hours d = pre @ r # post
      \<and> (\<forall>x\<in>set pre. \<not> start x > getHours d * 60 + getMinutes d)
      \<and> start r > getHours d * 60 + getMinutes d
      \<longrightarrow> findNextOpenTime hours d = Some (js ''today at '' @ formatMinutesAsTime (start r))
          \<and> (sorted (map start (ranges_on hours d)) \<longrightarrow>
               (\<forall>x\<in>set (ranges_on hours d).
                  start x > getHours d * 60 + getMinutes d \<longrightarrow> start r \<le> start x)))
   \<and> ((\<forall>x\<in>set (ranges_on hours d). \<not> start x > getHours d * 60 + getMinutes d)
      \<and> 1 \<le> i \<and> i \<le> 7
      \<and> (\<forall>j\<in>{1 ..< i}. ranges_on hours (add_days d j) = [])
      \<and> ranges_on hours (add_days d i) = r' # rs
      \<longrightarrow> findNextOpenTime hours d
            = Some (day_label d i @ js '' at '' @ formatMinutesAsTime (start r')))
   \<and> ((\<forall>x\<in>set (ranges_on hours d). \<not> start x > getHours d * 60 + getMinutes d)
      \<and> (\<forall>j\<in>{1 .. 7}. ranges_on hours (add_days d j) = [])
      \<longrightarrow> findNextOpenTime hours d = None)"
proof (intro conjI impI ballI; (elim conjE)?)
  assume "ranges_on hours d = pre @ r # post"
    and "\<forall>x\<in>set pre. \<not> start x > getHours d * 60 + getMinutes d"
    and "start r > getHours d * 60 + getMinutes d"
  then show "findNextOpenTime hours d = Some (js ''today at '' @ formatMinutesAsTime (start r))"
    by (rule next_open_today)
next
  fix x
  assume "ranges_on hours d = pre @ r # post"
    and "\<forall>x\<in>set pre. \<not> start x > getHours d * 60 + getMinutes d"
    and "sorted (map start (ranges_on hours d))"
    and "x \<in> set (ranges_on hours d)"
    and "start x > getHours d * 60 + getMinutes d"
  then show "start r \<le> start x"
    by (rule first_of_sorted)
next
  assume "\<forall>x\<in>set (ranges_on hours d). \<not> start x > getHours d * 60 + getMinutes d"
    and "1 \<le> i" and "i \<le> 7"
    and "\<forall>j\<in>{1 ..< i}. ranges_on hours (add_days d j) = []"
    and "ranges_on hours (add_days d i) = r' # rs"
  then show "findNextOpenTime hours d
            = Some (day_label d i @ js '' at '' @ formatMinutesAsTime (start r'))"
    by (rule next_open_later_day)
next
  assume "\<forall>x\<in>set (ranges_on hours d). \<not> start x > getHours d * 60 + getMinutes d"
    and "\<forall>j\<in>{1 .. 7}. ranges_on hours (add_days d j) = []"
  then show "findNextOpenTime hours d = None"
    by (rule next_open_none)
qed

lemma all_offsets: "(\<forall>j\<in>{1 .. 7::nat}. P j) \<longleftrightarrow> P 1 \<and> P 2 \<and> P 3 \<and> P 4 \<and> P 5 \<and> P 6 \<and> P 7"
proof -
  have "{1 .. 7::nat} = {1, 2, 3, 4, 5, 6, 7}" by auto
  then show ?thesis by simp
qed

lemma monday_only_ranges:
  "ranges_on monday_only monday_0830 = [\<lparr>start = 540, end' = 1020, is24h = False\<rparr>]"
  "ranges_on monday_only saturday_1730 = []"
  "ranges_on monday_only (add_days saturday_1730 1) = []"
  "ranges_on monday_only (add_days saturday_1730 2) = [\<lparr>start = 540, end' = 1020, is24h = False\<rparr>]"
  by (simp_all add: monday_only_def monday_0830_def saturday_1730_def add_days_def ranges_on_def
        day_eval parse_eval range_eval)

lemma evening_first_ranges:
  "ranges_on evening_first monday_0900
     = [\<lparr>start = 1020, end' = 1320, is24h = False\<rparr>,
        \<lparr>start = 660, end' = 900, is24h = False\<rparr>]"
  by (simp add: evening_first_def monday_0900_def ranges_on_def day_eval parse_eval range_eval)

lemma monday_closed_ranges:
  "ranges_on monday_closed_only (add_days saturday_1730 j) = []" if "j \<in> {1, 2, 3, 4, 5, 6, 7}"
  using that
  by (auto simp: monday_closed_only_def saturday_1730_def add_days_def ranges_on_def
        day_eval parse_eval range_eval)

lemma findNextOpenTime_search_examples:
  "findNextOpenTime monday_only monday_0830 = Some (js ''today at 9:00 AM'')
   \<and> findNextOpenTime monday_only saturday_1730 = Some (js ''Monday at 9:00 AM'')
   \<and> findNextOpenTime monday_closed_only saturday_1730 = None"
proof -
  let ?r = "\<lparr>start = 540, end' = 1020, is24h = False\<rparr>"
  have a1: "ranges_on monday_only monday_0830 = [] @ ?r # []"
    by (simp add: monday_only_ranges)
  have a2: "\<forall>x\<in>set []. \<not> start x > getHours monday_0830 * 60 + getMinutes monday_0830"
    by simp
  have a3: "start ?r > getHours monday_0830 * 60 + getMinutes monday_0830"
    by (simp add: monday_0830_def)
  have a: "findNextOpenTime monday_only monday_0830
             = Some (js ''today at '' @ formatMinutesAsTime (start ?r))"
    using findNextOpenTime_search [where hours = monday_only and d = monday_0830
        and pre = "[]" and r = ?r and post = "[]", THEN conjunct1, THEN mp,
        OF conjI [OF a1 conjI [OF a2 a3]], THEN conjunct1] .
  have b1: "\<forall>x\<in>set (ranges_on monday_only saturday_1730).
              \<not> start x > getHours saturday_1730 * 60 + getMinutes saturday_1730"
    by (simp add: monday_only_ranges)
  have b2: "1 \<le> (2::nat)" and b3: "(2::nat) \<le> 7"
    by simp_all
  have b4: "\<forall>j\<in>{1 ..< 2}. ranges_on monday_only (add_days saturday_1730 j) = []"
  proof
    fix j :: nat
    assume "j \<in> {1 ..< 2}"
    then have "j = 1" by simp
    then show "ranges_on monday_only (add_days saturday_1730 j) = []"
      by (simp only: monday_only_ranges)
  qed
  have b5: "ranges_on monday_only (add_days saturday_1730 2) = ?r # []"
    by (simp only: monday_only_ranges)
  have b: "findNextOpenTime monday_only saturday_1730
             = Some (day_label saturday_1730 2 @ js '' at '' @ formatMinutesAsTime (start ?r))"
    using findNextOpenTime_search [where hours = monday_only and d = saturday_1730
        and i = 2 and r' = ?r and rs = "[]", THEN conjunct2, THEN conjunct1, THEN mp,
        OF conjI [OF b1 conjI [OF b2 conjI [OF b3 conjI [OF b4 b5]]]]] .
  have l: "day_label saturday_1730 2 = js ''Monday''"
    by (simp add: day_label_def saturday_1730_def day_name_def DAY_NAMES_def)
  have c1: "\<forall>x\<in>set (ranges_on monday_closed_only saturday_1730).
              \<not> start x > getHours saturday_1730 * 60 + getMinutes saturday_1730"
    by (simp add: monday_closed_only_def saturday_1730_def ranges_on_def
          day_eval parse_eval range_eval)
  have c2: "\<forall>j\<in>{1 .. 7}. ranges_on monday_closed_only (add_days saturday_1730 j) = []"
    unfolding all_offsets by (simp only: monday_closed_ranges insert_iff simp_thms)
  have c: "findNextOpenTime monday_closed_only saturday_1730 = None"
    using findNextOpenTime_search [where hours = monday_closed_only and d = saturday_1730,
        THEN conjunct2, THEN conjunct2, THEN mp, OF conjI [OF c1 c2]] .
  from a b c l show ?thesis
    by (simp add: fmt_examples js_def)
qed

lemma evening_first_hours:
  "getTodayHours evening_first monday_0900
   = Some \<lparr>dayName = js ''Monday'', timeStr = js ''5:00 PM - 10:00 PM, 11:00 AM - 3:00 PM'',
            ranges = Some [\<lparr>start = 1020, end' = 1320, is24h = False\<rparr>,
                           \<lparr>start = 660, end' = 900, is24h = False\<rparr>]\<rparr>"
  by (simp add: evening_first_def monday_0900_def day_eval parse_eval range_eval)

text \<open>
  Claim C5. \<^verbatim>\<open>findNextOpenTime\<close> finds when the place next opens: when some range of
  today starts after the current minute, the answer is \<^verbatim>\<open>"today at "\<close> with the earliest
  such start. The code does not do so where the ranges of today are not listed by
  ascending start, since its loop returns at the first later start it meets. The weekly
  hours \<^verbatim>\<open>"Monday: 5:00 PM - 10:00 PM, 11:00 AM - 3:00 PM"\<close> give the ranges from 1020
  and from 660; on a Monday at 9:00 (minute 540) both start later, the place next opens at
  660, which is 11:00 AM, and the code answers \<^verbatim>\<open>"today at 5:00 PM"\<close>, which
  \<^verbatim>\<open>getOpenStatus\<close> reports as \<^verbatim>\<open>opensAt\<close>.
\<close>

theorem findNextOpenTime_not_earliest:
  "ranges_on evening_first monday_0900
     = [\<lparr>start = 1020, end' = 1320, is24h = False\<rparr>,
        \<lparr>start = 660, end' = 900, is24h = False\<rparr>]
   \<and> getHours monday_0900 * 60 + getMinutes monday_0900 = 540
   \<and> (540::int) < 660 \<and> (660::int) < 1020
   \<and> formatMinutesAsTime 660 = js ''11:00 AM''
   \<and> findNextOpenTime evening_first monday_0900 = Some (js ''today at 5:00 PM'')
   \<and> findNextOpenTime evening_first monday_0900 \<noteq> Some (js ''today at 11:00 AM'')
   \<and> status (getOpenStatus evening_first monday_0900) = Closed
   \<and> opensAt (getOpenStatus evening_first monday_0900) = Some (Some (js ''today at 5:00 PM''))"
proof -
  have "findNextOpenTime evening_first monday_0900
          = Some (js ''today at '' @ formatMinutesAsTime (start \<lparr>start = 1020, end' = 1320, is24h = False\<rparr>))"
    by (rule next_open_today [of _ _ "[]" _ "[\<lparr>start = 660, end' = 900, is24h = False\<rparr>]"])
       (simp_all add: evening_first_ranges, simp_all add: monday_0900_def)
  then have a: "findNextOpenTime evening_first monday_0900 = Some (js ''today at 5:00 PM'')"
    by (simp add: fmt_examples js_def)
  have b: "js ''today at 5:00 PM'' \<noteq> js ''today at 11:00 AM''"
    by (simp add: js_def)
  have c: "getHours monday_0900 * 60 + getMinutes monday_0900 = 540"
    by (simp add: monday_0900_def)
  have g: "getOpenStatus evening_first monday_0900
       = \<lparr>isOpen = False, isClosingSoon = False, status = Closed, minutesUntilClose = None,
          closesAt = None, opensAt = Some (findNextOpenTime evening_first monday_0900),
          todayHours = Some (js ''5:00 PM - 10:00 PM, 11:00 AM - 3:00 PM'')\<rparr>"
    by (simp add: getOpenStatus_def evening_first_hours c checkTimeRange_def)
  from a b c g evening_first_ranges show ?thesis
    by (simp add: fmt_examples)
qed

section \<open>Parsing and formatting a clock token\<close>

lemma trim_id: "s \<noteq> [] \<Longrightarrow> \<not> is_space (hd s) \<Longrightarrow> \<not> is_space (last s) \<Longrightarrow> trim s = s"
proof -
  assume s: "s \<noteq> []" and h: "\<not> is_space (hd s)" and l: "\<not> is_space (last s)"
  from s h have "dropWhile is_space s = s"
    by (cases s) auto
  moreover from s l have "dropWhile is_space (rev s) = rev s"
    by (cases "rev s") (auto simp: last_rev hd_rev)
  ultimately show ?thesis
    by (simp add: trim_def)
qed

lemma digits_small: "n < 10 \<Longrightarrow> digits n = [48 + n]"
  by (simp add: digits.simps)

lemma digits_two: "10 \<le> n \<Longrightarrow> n < 100 \<Longrightarrow> digits n = two_digits n"
proof -
  assume a: "10 \<le> n" "n < 100"
  then have "n div 10 < 10" by simp
  then have "digits (n div 10) = [48 + n div 10]" by (rule digits_small)
  with a show ?thesis
    by (subst digits.simps) (simp add: two_digits_def)
qed

lemma pad_minutes: "m < 60 \<Longrightarrow> padStart 2 48 (toString (int m)) = two_digits m"
proof (cases "m < 10")
  case True
  then show ?thesis
    by (simp add: padStart_def toString_def digits_small two_digits_def)
next
  case False
  assume "m < 60"
  with False show ?thesis
    by (simp add: padStart_def toString_def digits_two) (simp add: two_digits_def)
qed

lemma js_rem_nonneg: "0 \<le> a \<Longrightarrow> 0 < b \<Longrightarrow> js_rem a b = a mod b"
  by (cases "a = 0") (simp_all add: js_rem_def)

lemma split_minutes:
  "m < 60 \<Longrightarrow> int (H * 60 + m) div 60 = int H \<and> int (H * 60 + m) mod 60 = int m"
proof -
  assume "m < 60"
  then have "(H * 60 + m) div 60 = H \<and> (H * 60 + m) mod 60 = m" by simp
  then have "int ((H * 60 + m) div 60) = int H \<and> int ((H * 60 + m) mod 60) = int m" by simp
  then show ?thesis
    by (simp only: zdiv_int zmod_int of_nat_numeral)
qed

lemma format_clock:
  assumes "H < 24" and "m < 60"
  shows "formatMinutesAsTime (int (H * 60 + m)) =
           toString (int (if H = 0 then 12 else if H > 12 then H - 12 else H))
             @ js '':'' @ two_digits m @ js '' '' @ (if H \<ge> 12 then js ''PM'' else js ''AM'')"
proof -
  from assms(2) have dm: "int (H * 60 + m) div 60 = int H" "int (H * 60 + m) mod 60 = int m"
    using split_minutes [of m H] by simp_all
  have h: "js_rem (int (H * 60 + m) div 60) 24 = int H"
    unfolding dm using assms(1) by (simp add: js_rem_nonneg)
  have mi: "js_rem (int (H * 60 + m)) 60 = int m"
    using dm(2) by (simp add: js_rem_nonneg)
  show ?thesis
    unfolding formatMinutesAsTime_def Let_def h mi
    using assms by (auto simp: pad_minutes)
qed

lemma match_with_token:
  assumes "length ds = k" and "list_all is_digit ds" and "a < 10" and "b < 10"
  shows "match_with k (ds @ 58 # (48 + a) # (48 + b) # 32 # (case p of AM \<Rightarrow> [65, 77] | PM \<Rightarrow> [80, 77]))
           = Some (parseInt ds, int a * 10 + int b, Some p)"
proof -
  let ?rest = "58 # (48 + a) # (48 + b) # 32 # (case p of AM \<Rightarrow> [65, 77] | PM \<Rightarrow> [80, 77])"
  have t: "take k (ds @ ?rest) = ds" and d: "drop k (ds @ ?rest) = ?rest"
    using assms(1) by simp_all
  have mer: "match_meridiem (32 # (case p of AM \<Rightarrow> [65, 77] | PM \<Rightarrow> [80, 77])) = Some (Some p)"
    by (cases p) (simp_all add: match_meridiem_def is_space_def)
  have dig: "is_digit (48 + a)" "is_digit (48 + b)"
    using assms(3,4) by (simp_all add: is_digit_def)
  have val: "parseInt [48 + a, 48 + b] = int a * 10 + int b"
    by (simp add: parseInt_def)
  show ?thesis
    unfolding match_with_def t d using assms(1,2) dig
    by (simp add: mer val)
qed

lemma clock_token_shape:
  "clock_token h m p =
     (if h < 10 then [48 + h] else [48 + h div 10, 48 + h mod 10])
       @ 58 # (48 + m div 10) # (48 + m mod 10) # 32 # (case p of AM \<Rightarrow> [65, 77] | PM \<Rightarrow> [80, 77])"
  by (cases p) (simp_all add: clock_token_def two_digits_def js_def)

lemma match_clock_token:
  assumes "1 \<le> h" and "h \<le> 12" and "m < 60"
  shows "match_time (clock_token h m p) = Some (int h, int m, Some p)"
proof -
  have ab: "m div 10 < 10" "m mod 10 < 10"
    using assms(3) by simp_all
  have mm: "int (m div 10) * 10 + int (m mod 10) = int m"
    by (simp add: zdiv_int zmod_int)
  show ?thesis
  proof (cases "h < 10")
    case True
    then have shape: "clock_token h m p = [48 + h] @ 58 # (48 + m div 10) # (48 + m mod 10) # 32
                        # (case p of AM \<Rightarrow> [65, 77] | PM \<Rightarrow> [80, 77])"
      by (simp add: clock_token_shape)
    have two: "match_with 2 (clock_token h m p) = None"
      unfolding shape by (simp add: match_with_def is_digit_def)
    have "list_all is_digit [48 + h]"
      using True by (simp add: is_digit_def)
    then have "match_with 1 (clock_token h m p) = Some (parseInt [48 + h], int m, Some p)"
      unfolding shape using match_with_token [of "[48 + h]" 1, OF _ _ ab] mm by simp
    then have one: "match_with 1 (clock_token h m p) = Some (int h, int m, Some p)"
      by (simp add: parseInt_def)
    from two one show ?thesis
      by (simp add: match_time_def)
  next
    case False
    then have shape: "clock_token h m p = [48 + h div 10, 48 + h mod 10] @ 58 # (48 + m div 10)
                        # (48 + m mod 10) # 32 # (case p of AM \<Rightarrow> [65, 77] | PM \<Rightarrow> [80, 77])"
      by (simp add: clock_token_shape)
    from assms(2) have hd: "h div 10 < 10" "h mod 10 < 10"
      by simp_all
    have hh: "int (h div 10) * 10 + int (h mod 10) = int h"
      by (simp add: zdiv_int zmod_int)
    have "list_all is_digit [48 + h div 10, 48 + h mod 10]"
      using hd by (simp add: is_digit_def)
    then have "match_with 2 (clock_token h m p)
                 = Some (parseInt [48 + h div 10, 48 + h mod 10], int m, Some p)"
      unfolding shape
      using match_with_token [of "[48 + h div 10, 48 + h mod 10]" 2, OF _ _ ab] mm by simp
    then have "match_with 2 (clock_token h m p) = Some (int h, int m, Some p)"
      using hh by (simp add: parseInt_def)
    then show ?thesis
      by (simp add: match_time_def)
  qed
qed

lemma trim_clock_token: "h < 100 \<Longrightarrow> trim (clock_token h m p) = clock_token h m p"
proof (rule trim_id)
  assume h: "h < 100"
  show "clock_token h m p \<noteq> []"
    by (simp add: clock_token_shape)
  have "h div 10 < 10" using h by simp
  then show "\<not> is_space (hd (clock_token h m p))"
    by (simp add: clock_token_shape is_space_def)
  show "\<not> is_space (last (clock_token h m p))"
    by (cases p) (simp_all add: clock_token_shape is_space_def)
qed

lemma convert_clock:
  assumes "1 \<le> h" and "h \<le> 12"
  shows "convertHour (int h) (int m) (Some p) e s * 60 + int m = clock_minutes h m p"
proof (cases "h = 12")
  case True
  then show ?thesis
    by (cases p) (simp_all add: convertHour_def clock_minutes_def)
next
  case False
  with assms have "h mod 12 = h" by simp
  with False show ?thesis
    by (cases p) (simp_all add: convertHour_def clock_minutes_def)
qed

lemma parse_matched_clock:
  assumes "1 \<le> h" and "h \<le> 12"
    and "match_time (trim text) = Some (int h, int m, Some p)"
  shows "parseTime text e s = Some (clock_minutes h m p)"
proof -
  have "text \<noteq> []"
    using assms(3) by (auto simp: trim_Nil match_time_Nil)
  then show ?thesis
    using assms(3) convert_clock [OF assms(1,2), of m p e s]
    by (simp add: parseTime_def)
qed

lemma format_clock_minutes:
  assumes "1 \<le> h" and "h \<le> 12" and "m \<le> 59"
  shows "formatMinutesAsTime (clock_minutes h m p) = clock_token h m p"
proof -
  define H where "H = h mod 12 + (case p of AM \<Rightarrow> 0 | PM \<Rightarrow> 12)"
  have H: "H < 24"
    unfolding H_def by (cases p) simp_all
  have m: "m < 60" using assms(3) by simp
  have disp: "(if H = 0 then 12 else if H > 12 then H - 12 else H) = h"
    using assms(1,2) unfolding H_def
    by (cases p; cases "h = 12") simp_all
  have per: "(if H \<ge> 12 then js ''PM'' else js ''AM'') = (case p of AM \<Rightarrow> js ''AM'' | PM \<Rightarrow> js ''PM'')"
    using assms(1,2) unfolding H_def
    by (cases p; cases "h = 12") simp_all
  have str: "toString (int h) = (if h < 10 then [48 + h] else two_digits h)"
    using assms(2) by (simp add: toString_def digits_small digits_two)
  have "formatMinutesAsTime (int (H * 60 + m)) = clock_token h m p"
    unfolding format_clock [OF H m] disp per str clock_token_def ..
  then show ?thesis
    by (simp add: clock_minutes_def H_def)
qed

text \<open>
  Claim C9. For every token \<^verbatim>\<open>"H:MM AM"\<close> or \<^verbatim>\<open>"H:MM PM"\<close> with an hour from 1 to 12 and
  a minute from 00 to 59, \<^verbatim>\<open>parseTime\<close> returns the minute of the day of the token, and
  \<^verbatim>\<open>formatMinutesAsTime\<close> of that value is the token again; 12:00 AM goes to 0 and back,
  12:00 PM to 720 and back. Any other spelling that \<^verbatim>\<open>parseTime\<close> reads as the same
  hour, minute and meridiem comes back as the token in its display form.
\<close>

theorem parse_format_round_trip:
  assumes "1 \<le> h" and "h \<le> 12" and "m \<le> 59"
  shows "parseTime (clock_token h m p) isEndTime startMinutes = Some (clock_minutes h m p)
         \<and> formatMinutesAsTime (clock_minutes h m p) = clock_token h m p
         \<and> (match_time (trim text) = Some (int h, int m, Some p) \<longrightarrow>
              map_option formatMinutesAsTime (parseTime text isEndTime startMinutes)
                = Some (clock_token h m p))"
proof -
  have m: "m < 60" using assms(3) by simp
  have h: "h < 100" using assms(2) by simp
  have "match_time (trim (clock_token h m p)) = Some (int h, int m, Some p)"
    unfolding trim_clock_token [OF h] using assms(1,2) m by (rule match_clock_token)
  then have a: "parseTime (clock_token h m p) isEndTime startMinutes = Some (clock_minutes h m p)"
    using assms(1,2) by (intro parse_matched_clock)
  have b: "formatMinutesAsTime (clock_minutes h m p) = clock_token h m p"
    using assms by (rule format_clock_minutes)
  have c: "map_option formatMinutesAsTime (parseTime text isEndTime startMinutes)
             = Some (clock_token h m p)"
    if "match_time (trim text) = Some (int h, int m, Some p)"
    using parse_matched_clock [OF assms(1,2) that] b by simp
  from a b c show ?thesis by blast
qed

theorem parse_format_round_trip_witness:
  "parseTime (js ''12:00 AM'') False None = Some 0
   \<and> formatMinutesAsTime 0 = js ''12:00 AM''
   \<and> parseTime (js ''12:00 PM'') False None = Some 720
   \<and> formatMinutesAsTime 720 = js ''12:00 PM''
   \<and> parseTime (js ''9:05 PM'') True (Some 600) = Some 1265
   \<and> formatMinutesAsTime 1265 = js ''9:05 PM''
   \<and> map_option formatMinutesAsTime (parseTime (js '' 09:05pm'') True (Some 600))
       = Some (js ''9:05 PM'')"
proof -
  have t: "clock_token 12 0 AM = js ''12:00 AM''" "clock_token 12 0 PM = js ''12:00 PM''"
    "clock_token 9 5 PM = js ''9:05 PM''"
    by (simp_all add: clock_token_def two_digits_def js_def)
  have v: "clock_minutes 12 0 AM = 0" "clock_minutes 12 0 PM = 720" "clock_minutes 9 5 PM = 1265"
    by (simp_all add: clock_minutes_def)
  have x: "match_time (trim (js '' 09:05pm'')) = Some (int 9, int 5, Some PM)"
    by (simp add: parse_eval)
  have b: "(1::nat) \<le> 12" "(12::nat) \<le> 12" "(0::nat) \<le> 59" "(1::nat) \<le> 9" "(9::nat) \<le> 12"
    "(5::nat) \<le> 59"
    by simp_all
  show ?thesis
    using parse_format_round_trip [OF b(1,2,3), of AM False None]
      parse_format_round_trip [OF b(1,2,3), of PM False None]
      parse_format_round_trip [OF b(4,5,6), of PM True "Some 600" "js '' 09:05pm''"] x
    unfolding t v by simp
qed

end
